theory Spec2Isabelle
  imports Complex_Main "HOL-Library.Word"
begin

section \<open>The execution kernel of ag-kernel (core/engine.c, core/types.h)\<close>

text \<open>
  The C kernel is embedded function by function. Conventions of the embedding:
  \<^item> \<open>int64_t\<close> is \<open>int\<close>. Signed overflow is undefined behaviour in C, so the
    embedding describes the executions in which no \<open>int64_t\<close> operation overflows.
  \<^item> \<open>uint64_t\<close> (order ids, only compared for equality) is \<open>64 word\<close>.
  \<^item> a \<open>double\<close> value is a \<open>real\<close>; infinities and NaN are outside the embedding. Where
    a \<open>double\<close> is turned into an integer (\<open>apply_spread\<close> in the kernel, the scaling of a
    quantity in the batch path) or shown as the public position, every operation rounds
    to the nearest IEEE-754 binary64 value, ties to even (\<open>double_of_int\<close>, \<open>double_mul\<close>,
    \<open>double_div\<close> below), since a last-place error can move a ceiling by a whole tick.
    The monetary formulas (cash, fees, P&L, average entry price) are the ones the code
    evaluates, read in exact arithmetic: \<open>(double)n\<close> is \<open>real_of_int n\<close> there.
    \<open>(int64_t)ceil(x)\<close> is \<open>\<lceil>x\<rceil>\<close> and \<open>llabs\<close> is \<open>abs\<close>.
  \<^item> a C \<open>int\<close> used as a flag (\<open>active\<close>, holding 0 or 1 only) is \<open>bool\<close>; the C \<open>int\<close>
    \<open>order_count\<close>, which starts at 0 and is only incremented or set to a loop index,
    is \<open>nat\<close>.
  \<^item> a pointer argument is an \<open>option\<close> (\<open>None\<close> is \<open>NULL\<close>); the handle's memory is passed
    in and returned explicitly, next to the function's \<open>int\<close> result. The array
    \<open>orders[MAX_OPEN_ORDERS]\<close> is a list. \<open>engine_free\<close> only releases the memory and is not
    embedded.
\<close>

subsection \<open>The snapshot of the public surface\<close>

text \<open>
  Modelled from the spec: the snapshot value the public \<open>get_snapshot\<close> returns. The public
  surface is the Rust wrapper (crates/ag-core/src/lib.rs), which is not among the sources.
  Section 6 of the specification gives the shape: \<open>ts_ms\<close> is a 64-bit integer and every
  other field, \<open>position\<close> included, a double.
\<close>

record Snapshot =
  ts_ms :: int
  cash :: real
  position :: real
  avg_entry_price :: real
  realized_pnl :: real
  unrealized_pnl :: real
  equity :: real

subsection \<open>types.h\<close>

datatype side_t = SIDE_BUY | SIDE_SELL

record tick_event_t =
  ts_ms :: int
  price_tick :: int
  qty :: int
  side :: side_t

datatype order_type_t = ORDER_TYPE_LIMIT | ORDER_TYPE_MARKET

record order_t =
  order_id :: "64 word"
  type :: order_type_t
  side :: side_t
  qty :: int
  price_tick :: int

record snapshot_t =
  ts_ms :: int
  cash :: real
  position :: int
  avg_entry_price :: real
  realized_pnl :: real
  unrealized_pnl :: real
  equity :: real

record config_t =
  maker_fee_bps :: real
  taker_fee_bps :: real
  spread_bps :: real
  initial_cash :: real
  tick_size :: real

subsection \<open>engine.c: the handle\<close>

definition MAX_OPEN_ORDERS :: nat where
  "MAX_OPEN_ORDERS = 1024"

record tracked_order_t =
  order :: order_t
  active :: bool

record engine_handle_t =
  config :: config_t
  current_ts_ms :: int
  cash :: real
  position :: int
  avg_entry_price :: real
  realized_pnl :: real
  orders :: "tracked_order_t list"
  order_count :: nat
  last_tick_price :: int

subsection \<open>IEEE-754 binary64 rounding\<close>

text \<open>
  The result of a \<open>double\<close> operation is the exact result rounded to the nearest
  representable value, ties to the even significand. A binary64 value with exponent \<open>e\<close>
  (\<open>2^e \<le> |x| < 2^(e+1)\<close>, and \<open>e = -1022\<close> for the subnormal values) is a multiple of
  \<open>2^(e - 52)\<close>. Overflow to infinity is outside the embedding.
\<close>

definition round_half_even :: "real \<Rightarrow> int" where
  "round_half_even y =
     (let f = \<lfloor>y\<rfloor>; d = y - real_of_int f
      in if d < 1 / 2 then f else if 1 / 2 < d then f + 1 else if even f then f else f + 1)"

definition pow2 :: "int \<Rightarrow> real" where
  "pow2 e = (if 0 \<le> e then 2 ^ nat e else 1 / 2 ^ nat (- e))"

definition double_exponent :: "real \<Rightarrow> int" where
  "double_exponent x = max \<lfloor>log 2 \<bar>x\<bar>\<rfloor> (- 1022)"

definition round_double :: "real \<Rightarrow> real" where
  "round_double x =
     (if x = 0 then 0
      else real_of_int (round_half_even (x / pow2 (double_exponent x - 52))) *
           pow2 (double_exponent x - 52))"

text \<open>\<open>(double)n\<close> for an \<open>int64_t\<close>, and the product and the quotient of two doubles.\<close>

definition double_of_int :: "int \<Rightarrow> real" where
  "double_of_int n = round_double (real_of_int n)"

definition double_mul :: "real \<Rightarrow> real \<Rightarrow> real" where
  "double_mul x y = round_double (x * y)"

definition double_div :: "real \<Rightarrow> real \<Rightarrow> real" where
  "double_div x y = round_double (x / y)"

subsection \<open>engine.c: the static helpers\<close>

definition calculate_unrealized_pnl :: "engine_handle_t \<Rightarrow> real" where
  "calculate_unrealized_pnl h =
     (if position h = 0 then 0
      else
        let position_descaled = real_of_int (position h) / 1000000;
            position_value = position_descaled * real_of_int (last_tick_price h) * tick_size (config h);
            entry_value = position_descaled * avg_entry_price h * tick_size (config h)
        in position_value - entry_value)"

definition calculate_fee :: "engine_handle_t \<Rightarrow> real \<Rightarrow> int \<Rightarrow> real" where
  "calculate_fee h notional is_maker =
     (let fee_bps = (if is_maker \<noteq> 0 then maker_fee_bps (config h) else taker_fee_bps (config h))
      in notional * (fee_bps / 10000))"

definition apply_spread :: "engine_handle_t \<Rightarrow> int \<Rightarrow> side_t \<Rightarrow> int" where
  "apply_spread h price_tick' side' =
     (let spread_multiplier = double_div (spread_bps (config h)) 10000;
          spread_ticks = double_mul (double_of_int price_tick') spread_multiplier
      in if side' = SIDE_BUY then price_tick' + \<lceil>spread_ticks\<rceil>
         else price_tick' - \<lceil>spread_ticks\<rceil>)"

text \<open>
  \<open>execute_fill\<close> always returns 0 in C and its caller ignores the result; the embedding
  returns the handle as the fill leaves it.
\<close>

definition execute_fill :: "engine_handle_t \<Rightarrow> order_t \<Rightarrow> int \<Rightarrow> engine_handle_t" where
  "execute_fill h ord fill_price_tick =
     (let fill_qty = qty ord;
          fill_price = real_of_int fill_price_tick * tick_size (config h);
          notional = fill_price * (real_of_int fill_qty / 1000000);
          fee = calculate_fee h notional 0;
          old_position = position h;
          new_position = (if side ord = SIDE_BUY then old_position + fill_qty
                          else old_position - fill_qty);
          h1 = (if side ord = SIDE_BUY then h\<lparr>cash := cash h - (notional + fee)\<rparr>
                else h\<lparr>cash := cash h + (notional - fee)\<rparr>);
          h2 =
            (if old_position = 0 then
               h1\<lparr>avg_entry_price := real_of_int fill_price_tick\<rparr>
             else if (old_position > 0 \<and> side ord = SIDE_BUY) \<or>
                     (old_position < 0 \<and> side ord = SIDE_SELL) then
               (let old_value = real_of_int old_position * avg_entry_price h1;
                    new_value = real_of_int fill_qty * real_of_int fill_price_tick
                in h1\<lparr>avg_entry_price := (old_value + new_value) / real_of_int new_position\<rparr>)
             else
               (let qty_reducing = (if \<bar>old_position\<bar> \<ge> fill_qty then fill_qty else \<bar>old_position\<bar>);
                    qty_reducing_descaled = real_of_int qty_reducing / 1000000;
                    exit_value = qty_reducing_descaled * real_of_int fill_price_tick * tick_size (config h1);
                    entry_value = qty_reducing_descaled * avg_entry_price h1 * tick_size (config h1);
                    h3 = (if old_position > 0
                          then h1\<lparr>realized_pnl := realized_pnl h1 + (exit_value - entry_value)\<rparr>
                          else h1\<lparr>realized_pnl := realized_pnl h1 + (entry_value - exit_value)\<rparr>)
                in if new_position \<noteq> 0 \<and> ((old_position > 0 \<and> new_position < 0) \<or>
                                          (old_position < 0 \<and> new_position > 0))
                   then h3\<lparr>avg_entry_price := real_of_int fill_price_tick\<rparr>
                   else if new_position = 0 then h3\<lparr>avg_entry_price := 0\<rparr>
                   else h3))
      in h2\<lparr>position := new_position\<rparr>)"

definition should_fill_order :: "order_t \<Rightarrow> tick_event_t \<Rightarrow> bool" where
  "should_fill_order ord tick =
     (if type ord = ORDER_TYPE_MARKET then True
      else if side ord = SIDE_BUY then tick_event_t.price_tick tick \<le> price_tick ord
      else tick_event_t.price_tick tick \<ge> price_tick ord)"


subsection \<open>engine.c: lifecycle\<close>

text \<open>
  \<open>memset(h, 0, sizeof(engine_handle_t))\<close> fills every slot of the order array with the
  all-zero tracked order: id 0, the enum values numbered 0, quantity 0, tick 0, inactive.
\<close>

definition zero_tracked_order :: tracked_order_t where
  "zero_tracked_order =
     \<lparr>order = \<lparr>order_id = 0, type = ORDER_TYPE_LIMIT, side = SIDE_BUY, qty = 0, price_tick = 0\<rparr>,
      active = False\<rparr>"

definition zeroed_handle :: "config_t \<Rightarrow> engine_handle_t" where
  "zeroed_handle cfg =
     \<lparr>config = cfg, current_ts_ms = 0, cash = initial_cash cfg, position = 0,
      avg_entry_price = 0, realized_pnl = 0,
      orders = replicate MAX_OPEN_ORDERS zero_tracked_order, order_count = 0,
      last_tick_price = 0\<rparr>"

text \<open>
  \<open>engine_new\<close>: the first argument says whether \<open>malloc\<close> returns memory. The function
  returns \<open>NULL\<close> for a \<open>NULL\<close> configuration or a failed allocation and checks nothing else.
\<close>

definition engine_new :: "bool \<Rightarrow> config_t option \<Rightarrow> engine_handle_t option" where
  "engine_new malloc_ok cfg =
     (case cfg of
        None \<Rightarrow> None
      | Some c \<Rightarrow> if \<not> malloc_ok then None else Some (zeroed_handle c))"

definition engine_reset :: "engine_handle_t option \<Rightarrow> engine_handle_t option" where
  "engine_reset h =
     (case h of
        None \<Rightarrow> None
      | Some hh \<Rightarrow> Some (zeroed_handle (config hh)))"

subsection \<open>engine.c: \<open>engine_step_tick\<close>\<close>

text \<open>The body of the fill loop at index \<open>i\<close>.\<close>

definition fill_body :: "tick_event_t \<Rightarrow> nat \<Rightarrow> engine_handle_t \<Rightarrow> engine_handle_t" where
  "fill_body tick i h =
     (if \<not> active (orders h ! i) then h
      else if should_fill_order (order (orders h ! i)) tick then
        (let fill_price_tick =
               (if type (order (orders h ! i)) = ORDER_TYPE_MARKET
                then apply_spread h (tick_event_t.price_tick tick) (side (order (orders h ! i)))
                else apply_spread h (price_tick (order (orders h ! i))) (side (order (orders h ! i))));
             h' = execute_fill h (order (orders h ! i)) fill_price_tick
         in h'\<lparr>orders := (orders h')[i := (orders h' ! i)\<lparr>active := False\<rparr>]\<rparr>)
      else h)"

function fill_loop :: "tick_event_t \<Rightarrow> nat \<Rightarrow> engine_handle_t \<Rightarrow> engine_handle_t" where
  "fill_loop tick i h =
     (if i < order_count h then fill_loop tick (Suc i) (fill_body tick i h) else h)"
  by pat_completeness auto
termination
  by (relation "measure (\<lambda>(tick, i, h). order_count h - i)")
     (auto simp: fill_body_def execute_fill_def Let_def)

declare fill_loop.simps [simp del]

text \<open>
  The compaction loop, from \<open>read_idx\<close> and \<open>write_idx\<close>; it returns the final \<open>write_idx\<close>
  with the handle.
\<close>

function compact_loop :: "nat \<Rightarrow> nat \<Rightarrow> engine_handle_t \<Rightarrow> nat \<times> engine_handle_t" where
  "compact_loop read_idx write_idx h =
     (if read_idx < order_count h then
        (if active (orders h ! read_idx) then
           compact_loop (Suc read_idx) (Suc write_idx)
             (if write_idx \<noteq> read_idx
              then h\<lparr>orders := (orders h)[write_idx := orders h ! read_idx]\<rparr>
              else h)
         else compact_loop (Suc read_idx) write_idx h)
      else (write_idx, h))"
  by pat_completeness auto
termination
  by (relation "measure (\<lambda>(read_idx, write_idx, h). order_count h - read_idx)") auto

declare compact_loop.simps [simp del]

definition engine_step_tick ::
  "engine_handle_t option \<Rightarrow> tick_event_t option \<Rightarrow> int \<times> engine_handle_t option" where
  "engine_step_tick h tick =
     (case (h, tick) of
        (Some hh, Some t) \<Rightarrow>
          (let h1 = hh\<lparr>current_ts_ms := tick_event_t.ts_ms t,
                       last_tick_price := tick_event_t.price_tick t\<rparr>;
               h2 = fill_loop t 0 h1;
               (write_idx, h3) = compact_loop 0 0 h2
           in (0, Some (h3\<lparr>order_count := write_idx\<rparr>)))
      | _ \<Rightarrow> (- 1, h))"

subsection \<open>engine.c: orders and snapshot\<close>

definition engine_place_order ::
  "engine_handle_t option \<Rightarrow> order_t option \<Rightarrow> int \<times> engine_handle_t option" where
  "engine_place_order h ord =
     (case (h, ord) of
        (Some hh, Some ord') \<Rightarrow>
          if order_count hh \<ge> MAX_OPEN_ORDERS then (- 2, h)
          else (0, Some (hh\<lparr>orders := (orders hh)[order_count hh := \<lparr>order = ord', active = True\<rparr>],
                              order_count := order_count hh + 1\<rparr>))
      | _ \<Rightarrow> (- 1, h))"

function cancel_loop :: "nat \<Rightarrow> 64 word \<Rightarrow> engine_handle_t \<Rightarrow> int \<times> engine_handle_t" where
  "cancel_loop i oid h =
     (if i < order_count h then
        (if active (orders h ! i) \<and> order_id (order (orders h ! i)) = oid
         then (0, h\<lparr>orders := (orders h)[i := (orders h ! i)\<lparr>active := False\<rparr>]\<rparr>)
         else cancel_loop (Suc i) oid h)
      else (- 1, h))"
  by pat_completeness auto
termination
  by (relation "measure (\<lambda>(i, oid, h). order_count h - i)") auto

declare cancel_loop.simps [simp del]

definition engine_cancel_order ::
  "engine_handle_t option \<Rightarrow> 64 word \<Rightarrow> int \<times> engine_handle_t option" where
  "engine_cancel_order h oid =
     (case h of
        None \<Rightarrow> (- 1, None)
      | Some hh \<Rightarrow> (case cancel_loop 0 oid hh of (rc, hh') \<Rightarrow> (rc, Some hh')))"

definition zero_snapshot :: snapshot_t where
  "zero_snapshot =
     \<lparr>ts_ms = 0, cash = 0, position = 0, avg_entry_price = 0, realized_pnl = 0,
      unrealized_pnl = 0, equity = 0\<rparr>"

definition engine_get_snapshot :: "engine_handle_t option \<Rightarrow> snapshot_t" where
  "engine_get_snapshot h =
     (case h of
        None \<Rightarrow> zero_snapshot
      | Some hh \<Rightarrow>
          \<lparr>ts_ms = current_ts_ms hh, cash = cash hh, position = position hh,
           avg_entry_price = avg_entry_price hh, realized_pnl = realized_pnl hh,
           unrealized_pnl = calculate_unrealized_pnl hh,
           equity = cash hh + calculate_unrealized_pnl hh\<rparr>)"

text \<open>
  Modelled from the spec: \<open>get_snapshot\<close> of the public surface (the wrapper's conversion of
  the kernel's \<open>snapshot_t\<close> is missing; the audit report quotes it as
  \<open>position: snap.position as f64 / 1000000.0\<close>). Section 4.6: the snapshot holds the kernel's
  timestamp, cash, average entry price, realized and unrealized P&L and equity, and the
  position in real units, \<open>position_micro / 1e6\<close>, a double division.
\<close>

definition get_snapshot :: "engine_handle_t \<Rightarrow> Snapshot" where
  "get_snapshot h =
     (let snap = engine_get_snapshot (Some h)
      in \<lparr>Snapshot.ts_ms = snapshot_t.ts_ms snap,
          Snapshot.cash = snapshot_t.cash snap,
          Snapshot.position = double_div (double_of_int (snapshot_t.position snap)) 1000000,
          Snapshot.avg_entry_price = snapshot_t.avg_entry_price snap,
          Snapshot.realized_pnl = snapshot_t.realized_pnl snap,
          Snapshot.unrealized_pnl = snapshot_t.unrealized_pnl snap,
          Snapshot.equity = snapshot_t.equity snap\<rparr>)"


subsection \<open>Handles the kernel produces, and operation sequences\<close>

text \<open>
  The order array has \<open>MAX_OPEN_ORDERS\<close> slots and \<open>order_count\<close> never exceeds it: this
  holds of every handle \<open>engine_new\<close> returns and every operation keeps it (lemmas
  \<open>handle_ok_zeroed\<close>, \<open>apply_op_some\<close> and \<open>run_some\<close> below). In such a handle no loop of
  the kernel indexes the array out of range. The slots below \<open>order_count\<close> are the stored
  orders, in the order of their placement; the slots from \<open>order_count\<close> on are never read
  before they are overwritten. The live orders are the stored orders that are active.
\<close>

definition handle_ok :: "engine_handle_t \<Rightarrow> bool" where
  "handle_ok h = (length (orders h) = MAX_OPEN_ORDERS \<and> order_count h \<le> MAX_OPEN_ORDERS)"

definition stored_orders :: "engine_handle_t \<Rightarrow> tracked_order_t list" where
  "stored_orders h = take (order_count h) (orders h)"

definition live_orders :: "engine_handle_t \<Rightarrow> order_t list" where
  "live_orders h = map order (filter active (stored_orders h))"

text \<open>The account state: everything in the handle but the order array and its count.\<close>

definition account_state ::
  "engine_handle_t \<Rightarrow> config_t \<times> int \<times> real \<times> int \<times> real \<times> real \<times> int" where
  "account_state h =
     (config h, current_ts_ms h, cash h, position h, avg_entry_price h, realized_pnl h,
      last_tick_price h)"

datatype op =
    Reset
  | StepTick tick_event_t
  | PlaceOrder order_t
  | CancelOrder "64 word"

fun apply_op :: "engine_handle_t option \<Rightarrow> op \<Rightarrow> engine_handle_t option" where
  "apply_op h Reset = engine_reset h"
| "apply_op h (StepTick t) = snd (engine_step_tick h (Some t))"
| "apply_op h (PlaceOrder ord) = snd (engine_place_order h (Some ord))"
| "apply_op h (CancelOrder oid) = snd (engine_cancel_order h oid)"

definition run :: "engine_handle_t option \<Rightarrow> op list \<Rightarrow> engine_handle_t option" where
  "run h ops = foldl apply_op h ops"

subsection \<open>The tick step as the specification words it\<close>

text \<open>
  Section 4.3 of the specification, written down independently of the loops above, to be
  compared with \<open>engine_step_tick\<close>: which orders fill at a tick, from which base tick, the
  account after scanning the stored orders in insertion order, and the orders that survive.
\<close>

definition spec_fills :: "tick_event_t \<Rightarrow> order_t \<Rightarrow> bool" where
  "spec_fills tick ord =
     (case type ord of
        ORDER_TYPE_MARKET \<Rightarrow> True
      | ORDER_TYPE_LIMIT \<Rightarrow>
          (case side ord of
             SIDE_BUY \<Rightarrow> tick_event_t.price_tick tick \<le> price_tick ord
           | SIDE_SELL \<Rightarrow> tick_event_t.price_tick tick \<ge> price_tick ord))"

definition spec_fill_base :: "tick_event_t \<Rightarrow> order_t \<Rightarrow> int" where
  "spec_fill_base tick ord =
     (case type ord of
        ORDER_TYPE_MARKET \<Rightarrow> tick_event_t.price_tick tick
      | ORDER_TYPE_LIMIT \<Rightarrow> price_tick ord)"

fun spec_scan :: "tick_event_t \<Rightarrow> tracked_order_t list \<Rightarrow> engine_handle_t \<Rightarrow> engine_handle_t" where
  "spec_scan tick [] h = h"
| "spec_scan tick (t # ts) h =
     spec_scan tick ts
       (if active t \<and> spec_fills tick (order t)
        then execute_fill h (order t)
               (apply_spread h (spec_fill_base tick (order t)) (side (order t)))
        else h)"

definition spec_mark :: "tick_event_t \<Rightarrow> tracked_order_t \<Rightarrow> tracked_order_t" where
  "spec_mark tick t = (if active t \<and> spec_fills tick (order t) then t\<lparr>active := False\<rparr> else t)"

definition spec_survivors :: "tick_event_t \<Rightarrow> tracked_order_t list \<Rightarrow> tracked_order_t list" where
  "spec_survivors tick ts = filter (\<lambda>t. active t \<and> \<not> spec_fills tick (order t)) ts"

subsection \<open>Batch ingestion\<close>

text \<open>
  The C kernel has no batch function: the batch entry point is \<open>process_tick_batch\<close> of the
  Rust wrapper (crates/ag-core/src/lib.rs), which is not among the sources. The definitions
  of this subsection are therefore written from the specification (sections 3, 4.7, 6
  and 7), over the embedded \<open>engine_step_tick\<close>.
\<close>

datatype batch_error = length_mismatch | invalid_tick

text \<open>
  Modelled from the spec: the scaling of a real quantity to micro-units (the wrapper's
  conversion is missing). Section 3: the integer value equals the real quantity
  multiplied by 1,000,000 and truncated toward zero; the product is a double product.
\<close>

definition scale_qty :: "real \<Rightarrow> int" where
  "scale_qty q =
     (let scaled = double_mul q 1000000
      in if scaled \<ge> 0 then \<lfloor>scaled\<rfloor> else \<lceil>scaled\<rceil>)"

text \<open>
  Modelled from the spec: the decoding of a side in batch form (missing with the wrapper).
  Section 6: \<open>0 = buy\<close>, \<open>1 = sell\<close>; section 7: any other code is an invalid side.
\<close>

definition side_of_code :: "nat \<Rightarrow> side_t option" where
  "side_of_code c = (if c = 0 then Some SIDE_BUY else if c = 1 then Some SIDE_SELL else None)"

text \<open>
  Modelled from the spec: the tick at index \<open>i\<close> of a batch (missing with the wrapper), made
  of the \<open>i\<close>-th element of each sequence. \<open>step_batch\<close> below reads an index only after it has
  checked the lengths and the side codes.
\<close>

definition batch_tick :: "int list \<Rightarrow> int list \<Rightarrow> real list \<Rightarrow> nat list \<Rightarrow> nat \<Rightarrow> tick_event_t" where
  "batch_tick timestamps price_ticks qtys sides i =
     \<lparr>tick_event_t.ts_ms = timestamps ! i, tick_event_t.price_tick = price_ticks ! i,
      tick_event_t.qty = scale_qty (qtys ! i),
      tick_event_t.side = (case side_of_code (sides ! i) of Some s \<Rightarrow> s | None \<Rightarrow> SIDE_SELL)\<rparr>"

text \<open>
  Modelled from the spec: the loop of \<open>step_batch\<close> (\<open>process_tick_batch\<close> is missing).
  Section 4.7: \<open>step_tick\<close> is invoked on each index in order.
\<close>

function batch_loop ::
  "int list \<Rightarrow> int list \<Rightarrow> real list \<Rightarrow> nat list \<Rightarrow> nat \<Rightarrow> engine_handle_t option \<Rightarrow>
   engine_handle_t option" where
  "batch_loop timestamps price_ticks qtys sides i h =
     (if i < length timestamps
      then batch_loop timestamps price_ticks qtys sides (Suc i)
             (snd (engine_step_tick h (Some (batch_tick timestamps price_ticks qtys sides i))))
      else h)"
  by pat_completeness auto
termination
  by (relation "measure (\<lambda>(timestamps, price_ticks, qtys, sides, i, h). length timestamps - i)") auto

declare batch_loop.simps [simp del]

text \<open>
  Modelled from the spec: \<open>step_batch\<close> (\<open>process_tick_batch\<close> is missing). Sections 4.7, 6
  and 7: the four sequences must have equal lengths, \<open>length_mismatch\<close> otherwise; an
  invalid side code is an \<open>invalid_tick\<close>; an operation that fails leaves the state
  unchanged, so both checks come before the first tick step.
\<close>

definition step_batch ::
  "engine_handle_t \<Rightarrow> int list \<Rightarrow> int list \<Rightarrow> real list \<Rightarrow> nat list \<Rightarrow>
   batch_error + engine_handle_t option" where
  "step_batch h timestamps price_ticks qtys sides =
     (if \<not> (length price_ticks = length timestamps \<and> length qtys = length timestamps \<and>
             length sides = length timestamps)
      then Inl length_mismatch
      else if \<not> list_all (\<lambda>c. side_of_code c \<noteq> None) sides then Inl invalid_tick
      else Inr (batch_loop timestamps price_ticks qtys sides 0 (Some h)))"

text \<open>
  The per-tick path on the same data: the list of ticks, one per index in index order, that
  a caller submits by successive calls of \<open>engine_step_tick\<close>.
\<close>

definition batch_ticks :: "int list \<Rightarrow> int list \<Rightarrow> real list \<Rightarrow> nat list \<Rightarrow> tick_event_t list" where
  "batch_ticks timestamps price_ticks qtys sides =
     map (batch_tick timestamps price_ticks qtys sides) [0..<length timestamps]"

subsection \<open>Example inputs\<close>

text \<open>
  The configuration of the specification's scenarios (section 8): no fees, no spread,
  initial cash 100000, tick size 1; and orders and ticks to run through the kernel.
\<close>

definition example_config :: config_t where
  "example_config =
     \<lparr>maker_fee_bps = 0, taker_fee_bps = 0, spread_bps = 0, initial_cash = 100000, tick_size = 1\<rparr>"

definition market_order :: "64 word \<Rightarrow> side_t \<Rightarrow> int \<Rightarrow> order_t" where
  "market_order oid s q =
     \<lparr>order_id = oid, type = ORDER_TYPE_MARKET, side = s, qty = q, price_tick = 0\<rparr>"

definition limit_order :: "64 word \<Rightarrow> side_t \<Rightarrow> int \<Rightarrow> int \<Rightarrow> order_t" where
  "limit_order oid s q p =
     \<lparr>order_id = oid, type = ORDER_TYPE_LIMIT, side = s, qty = q, price_tick = p\<rparr>"

definition tick_at :: "int \<Rightarrow> int \<Rightarrow> tick_event_t" where
  "tick_at ts p =
     \<lparr>tick_event_t.ts_ms = ts, tick_event_t.price_tick = p, tick_event_t.qty = 1000000,
      tick_event_t.side = SIDE_BUY\<rparr>"


text \<open>
  A handle with four stored orders: a buy limit at 100, a buy limit at 105, a market sell of
  3.0, all active, and a cancelled sell limit at 120.
\<close>

definition example_book :: engine_handle_t where
  "example_book =
     (zeroed_handle example_config)
       \<lparr>orders :=
          [\<lparr>order = limit_order 1 SIDE_BUY 1000000 100, active = True\<rparr>,
           \<lparr>order = limit_order 2 SIDE_BUY 1000000 105, active = True\<rparr>,
           \<lparr>order = market_order 3 SIDE_SELL 3000000, active = True\<rparr>,
           \<lparr>order = limit_order 4 SIDE_SELL 1000000 120, active = False\<rparr>] @
          replicate (MAX_OPEN_ORDERS - 4) zero_tracked_order,
        order_count := 4\<rparr>"

text \<open>A handle whose order array is full of one resting buy limit at 50, all active.\<close>

definition example_full_book :: engine_handle_t where
  "example_full_book =
     (zeroed_handle example_config)
       \<lparr>orders :=
          replicate MAX_OPEN_ORDERS \<lparr>order = limit_order 9 SIDE_BUY 1000000 50, active = True\<rparr>,
        order_count := MAX_OPEN_ORDERS\<rparr>"

section \<open>Rounding to binary64\<close>

lemma pow2_powr: "pow2 e = 2 powr real_of_int e"
proof (cases "0 \<le> e")
  case True
  then have "real_of_int e = real (nat e)" by simp
  then have "2 powr real_of_int e = (2::real) ^ nat e"
    by (simp only: powr_realpow zero_less_numeral)
  with True show ?thesis by (simp add: pow2_def)
next
  case False
  then have "real_of_int e = - real (nat (- e))" by simp
  then have "2 powr real_of_int e = 1 / (2::real) ^ nat (- e)"
    by (simp only: powr_minus_divide powr_realpow zero_less_numeral)
  with False show ?thesis by (simp add: pow2_def)
qed

lemma pow2_pos: "0 < pow2 e"
  by (simp add: pow2_def)

lemma double_exponent_eq:
  assumes "pow2 e \<le> \<bar>x\<bar>" "\<bar>x\<bar> < pow2 (e + 1)" "- 1022 \<le> e"
  shows "double_exponent x = e"
proof -
  from assms(1) pow2_pos [of e] have pos: "0 < \<bar>x\<bar>" by linarith
  have "2 powr real_of_int e \<le> \<bar>x\<bar> \<and> \<bar>x\<bar> < 2 powr real_of_int (e + 1)"
    using assms(1,2) by (simp only: pow2_powr)
  with pos have "\<lfloor>log 2 \<bar>x\<bar>\<rfloor> = e"
    by (simp add: floor_log_eq_powr_iff)
  with assms(3) show ?thesis by (simp add: double_exponent_def)
qed

text \<open>How a value is rounded once its exponent is known.\<close>

lemma round_double_eval:
  assumes "pow2 e \<le> \<bar>x\<bar>" "\<bar>x\<bar> < pow2 (e + 1)" "- 1022 \<le> e"
  shows "round_double x = real_of_int (round_half_even (x / pow2 (e - 52))) * pow2 (e - 52)"
proof -
  from assms(1) pow2_pos [of e] have "x \<noteq> 0" by auto
  with double_exponent_eq [OF assms] show ?thesis by (simp add: round_double_def)
qed

lemma round_half_even_nonneg: "0 \<le> y \<Longrightarrow> 0 \<le> round_half_even y"
  by (simp add: round_half_even_def Let_def)

lemma round_double_nonneg: "0 \<le> x \<Longrightarrow> 0 \<le> round_double x"
  by (simp add: round_double_def round_half_even_nonneg pow2_pos less_imp_le)

lemma double_of_int_nonneg: "0 \<le> n \<Longrightarrow> 0 \<le> double_of_int n"
  by (simp add: double_of_int_def round_double_nonneg)

lemma double_mul_nonneg: "0 \<le> x \<Longrightarrow> 0 \<le> y \<Longrightarrow> 0 \<le> double_mul x y"
  by (simp add: double_mul_def round_double_nonneg)

lemma double_div_nonneg: "0 \<le> x \<Longrightarrow> 0 \<le> y \<Longrightarrow> 0 \<le> double_div x y"
  by (simp add: double_div_def round_double_nonneg)

lemma double_div_zero [simp]: "double_div 0 y = 0"
  by (simp add: double_div_def round_double_def)

lemma double_mul_zero [simp]: "double_mul x 0 = 0"
  by (simp add: double_mul_def round_double_def)

text \<open>
  The values the examples below need: 100 and 1500000 are representable, 100 / 10000 and
  700 / 10000 are not, and the products of 100 with their doubles round to 1 and to the
  double above 7; the quantities 1 and 2.5 scale exactly.
\<close>

lemma double_of_int_100: "double_of_int 100 = 100" "double_of_int (- 100) = - 100"
  unfolding double_of_int_def
  by (subst round_double_eval [of 6], simp_all add: pow2_def round_half_even_def Let_def)+

lemma double_div_100_10000: "double_div 100 10000 = 5764607523034235 / 576460752303423488"
  unfolding double_div_def
  by (subst round_double_eval [of "- 7"]) (simp_all add: pow2_def round_half_even_def Let_def)

lemma double_div_700_10000: "double_div 700 10000 = 1261007895663739 / 18014398509481984"
  unfolding double_div_def
  by (subst round_double_eval [of "- 4"]) (simp_all add: pow2_def round_half_even_def Let_def)

lemma double_mul_100_bps_100:
  "double_mul 100 (5764607523034235 / 576460752303423488) = 1"
  "double_mul (- 100) (5764607523034235 / 576460752303423488) = - 1"
  unfolding double_mul_def
  by (subst round_double_eval [of 0], simp_all add: pow2_def round_half_even_def Let_def)+

lemma double_mul_100_bps_700:
  "double_mul 100 (1261007895663739 / 18014398509481984) =
     7881299347898369 / 1125899906842624"
  unfolding double_mul_def
  by (subst round_double_eval [of 2]) (simp_all add: pow2_def round_half_even_def Let_def)

lemma double_mul_qty:
  "double_mul 1 1000000 = 1000000" "double_mul (5 / 2) 1000000 = 2500000"
  unfolding double_mul_def
  by (subst round_double_eval [of 19], simp_all add: pow2_def round_half_even_def Let_def,
      subst round_double_eval [of 21], simp_all add: pow2_def round_half_even_def Let_def)

lemma double_of_int_1500000: "double_of_int 1500000 = 1500000"
  unfolding double_of_int_def
  by (subst round_double_eval [of 20]) (simp_all add: pow2_def round_half_even_def Let_def)

lemma double_div_1500000: "double_div 1500000 1000000 = 3 / 2"
  unfolding double_div_def
  by (subst round_double_eval [of 0]) (simp_all add: pow2_def round_half_even_def Let_def)

section \<open>The tick step refines its specification\<close>

subsection \<open>Fills depend on the account only\<close>

lemma should_fill_order_spec: "should_fill_order ord tick = spec_fills tick ord"
  by (cases "type ord"; cases "side ord") (simp_all add: should_fill_order_def spec_fills_def)

lemma execute_fill_orders_update:
  "execute_fill (h\<lparr>orders := xs\<rparr>) ord p = (execute_fill h ord p)\<lparr>orders := xs\<rparr>"
  by (simp add: execute_fill_def calculate_fee_def Let_def)

lemma execute_fill_orders: "orders (execute_fill h ord p) = orders h"
  by (simp add: execute_fill_def Let_def)

lemma execute_fill_order_count: "order_count (execute_fill h ord p) = order_count h"
  by (simp add: execute_fill_def Let_def)

lemma execute_fill_config: "config (execute_fill h ord p) = config h"
  by (simp add: execute_fill_def Let_def)

lemma apply_spread_orders_update: "apply_spread (h\<lparr>orders := xs\<rparr>) b s = apply_spread h b s"
  by (simp add: apply_spread_def)

lemma fill_body_spec:
  "fill_body tick i h =
     (if active (orders h ! i) \<and> spec_fills tick (order (orders h ! i))
      then execute_fill h (order (orders h ! i))
             (apply_spread h (spec_fill_base tick (order (orders h ! i))) (side (order (orders h ! i))))
      else h)\<lparr>orders := (orders h)[i := spec_mark tick (orders h ! i)]\<rparr>"
  by (cases "type (order (orders h ! i))")
     (simp_all add: fill_body_def should_fill_order_spec spec_fill_base_def spec_mark_def
        Let_def execute_fill_orders)

lemma spec_scan_orders_update:
  "spec_scan tick ts (h\<lparr>orders := xs\<rparr>) = (spec_scan tick ts h)\<lparr>orders := xs\<rparr>"
  by (induction ts arbitrary: h)
     (simp_all add: execute_fill_orders_update apply_spread_orders_update)

lemma spec_scan_orders: "orders (spec_scan tick ts h) = orders h"
  by (induction ts arbitrary: h) (simp_all add: execute_fill_orders)

lemma spec_scan_order_count: "order_count (spec_scan tick ts h) = order_count h"
  by (induction ts arbitrary: h) (simp_all add: execute_fill_order_count)

lemma spec_scan_config: "config (spec_scan tick ts h) = config h"
  by (induction ts arbitrary: h) (simp_all add: execute_fill_config)

subsection \<open>The fill loop\<close>

lemma take_drop_step:
  assumes "i < n" "n \<le> length xs"
  shows "take (n - i) (drop i xs) = xs ! i # take (n - Suc i) (drop (Suc i) xs)"
proof -
  from assms have "i < length xs" by simp
  then have "drop i xs = xs ! i # drop (Suc i) xs"
    by (simp add: Cons_nth_drop_Suc)
  moreover from assms have "n - i = Suc (n - Suc i)" by simp
  ultimately show ?thesis by simp
qed

lemma fill_loop_spec:
  "i \<le> order_count h \<Longrightarrow> order_count h \<le> length (orders h) \<Longrightarrow>
   fill_loop tick i h =
     (spec_scan tick (take (order_count h - i) (drop i (orders h))) h)
       \<lparr>orders := take i (orders h) @
                  map (spec_mark tick) (take (order_count h - i) (drop i (orders h))) @
                  drop (order_count h) (orders h)\<rparr>"
proof (induction tick i h rule: fill_loop.induct)
  case (1 tick i h)
  let ?n = "order_count h"
  let ?xs = "orders h"
  show ?case
  proof (cases "i < ?n")
    case False
    have stop: "fill_loop tick i h = h"
      using False by (subst fill_loop.simps) simp
    from False "1.prems" have "i = ?n" by simp
    with stop show ?thesis by simp
  next
    case True
    let ?t = "?xs ! i"
    let ?a = "if active ?t \<and> spec_fills tick (order ?t)
              then execute_fill h (order ?t)
                     (apply_spread h (spec_fill_base tick (order ?t)) (side (order ?t)))
              else h"
    let ?hb = "fill_body tick i h"
    have hb: "?hb = ?a\<lparr>orders := ?xs[i := spec_mark tick ?t]\<rparr>"
      by (rule fill_body_spec)
    have cnt: "order_count ?hb = ?n"
      by (simp add: hb execute_fill_order_count)
    have ords: "orders ?hb = ?xs[i := spec_mark tick ?t]"
      by (simp add: hb)
    from True "1.prems" have il: "i < length ?xs" by simp
    have split: "take (?n - i) (drop i ?xs) = ?t # take (?n - Suc i) (drop (Suc i) ?xs)"
      using True "1.prems" by (intro take_drop_step) simp_all
    have d1: "drop (Suc i) (orders ?hb) = drop (Suc i) ?xs"
      by (simp add: ords)
    have d2: "drop ?n (orders ?hb) = drop ?n ?xs"
      using True by (simp add: ords)
    have t1: "take (Suc i) (orders ?hb) = take i ?xs @ [spec_mark tick ?t]"
      using il by (simp add: ords take_Suc_conv_app_nth)
    have ih: "fill_loop tick (Suc i) ?hb =
        (spec_scan tick (take (?n - Suc i) (drop (Suc i) ?xs)) ?hb)
          \<lparr>orders := take i ?xs @ [spec_mark tick ?t] @
                     map (spec_mark tick) (take (?n - Suc i) (drop (Suc i) ?xs)) @
                     drop ?n ?xs\<rparr>"
      using "1.IH" [OF True] True "1.prems" cnt d1 d2 t1 by (simp add: ords)
    have "fill_loop tick i h = fill_loop tick (Suc i) ?hb"
      using True by (subst fill_loop.simps) simp
    also note ih
    finally show ?thesis
      by (simp add: split hb spec_scan_orders_update)
  qed
qed

subsection \<open>The compaction loop\<close>

lemma compact_loop_frame:
  "snd (compact_loop r w h) = h\<lparr>orders := orders (snd (compact_loop r w h))\<rparr> \<and>
   length (orders (snd (compact_loop r w h))) = length (orders h)"
proof (induction r w h rule: compact_loop.induct)
  case (1 r w h)
  show ?case
  proof (cases "r < order_count h")
    case False
    then have "compact_loop r w h = (w, h)"
      by (subst compact_loop.simps) simp
    then show ?thesis by simp
  next
    case True
    show ?thesis
    proof (cases "active (orders h ! r)")
      case False
      with True have "compact_loop r w h = compact_loop (Suc r) w h"
        by (subst compact_loop.simps) simp
      with "1.IH"(2) [OF True False] show ?thesis by simp
    next
      case act: True
      let ?h' = "if w \<noteq> r then h\<lparr>orders := (orders h)[w := orders h ! r]\<rparr> else h"
      let ?res = "snd (compact_loop (Suc r) (Suc w) ?h')"
      from True act have step: "compact_loop r w h = compact_loop (Suc r) (Suc w) ?h'"
        by (subst compact_loop.simps) simp
      from "1.IH"(1) [OF True act]
      have a: "?res = ?h'\<lparr>orders := orders ?res\<rparr>"
        and b: "length (orders ?res) = length (orders ?h')"
        by blast+
      have "?h'\<lparr>orders := orders ?res\<rparr> = h\<lparr>orders := orders ?res\<rparr>"
        by simp
      with a have "?res = h\<lparr>orders := orders ?res\<rparr>" by simp
      moreover have "length (orders ?h') = length (orders h)" by simp
      ultimately show ?thesis using b unfolding step by simp
    qed
  qed
qed

lemma compact_loop_spec:
  "w \<le> r \<Longrightarrow> r \<le> order_count h \<Longrightarrow> order_count h \<le> length (orders h) \<Longrightarrow>
   fst (compact_loop r w h) =
     w + length (filter active (take (order_count h - r) (drop r (orders h)))) \<and>
   take (fst (compact_loop r w h)) (orders (snd (compact_loop r w h))) =
     take w (orders h) @ filter active (take (order_count h - r) (drop r (orders h)))"
proof (induction r w h rule: compact_loop.induct)
  case (1 r w h)
  let ?n = "order_count h"
  let ?xs = "orders h"
  show ?case
  proof (cases "r < ?n")
    case False
    have stop: "compact_loop r w h = (w, h)"
      using False by (subst compact_loop.simps) simp
    from False "1.prems" have "r = ?n" by simp
    with stop show ?thesis by simp
  next
    case True
    from True "1.prems" have rl: "r < length ?xs" and wl: "w < length ?xs" by simp_all
    have split: "take (?n - r) (drop r ?xs) = ?xs ! r # take (?n - Suc r) (drop (Suc r) ?xs)"
      using True "1.prems" by (intro take_drop_step) simp_all
    let ?rest = "take (?n - Suc r) (drop (Suc r) ?xs)"
    show ?thesis
    proof (cases "active (?xs ! r)")
      case False
      have step: "compact_loop r w h = compact_loop (Suc r) w h"
        using True False by (subst compact_loop.simps) simp
      have "fst (compact_loop (Suc r) w h) = w + length (filter active ?rest) \<and>
            take (fst (compact_loop (Suc r) w h)) (orders (snd (compact_loop (Suc r) w h))) =
              take w ?xs @ filter active ?rest"
        using True "1.prems" by (intro "1.IH"(2) [OF True False]) simp_all
      then have f: "fst (compact_loop (Suc r) w h) = w + length (filter active ?rest)"
        and tk: "take (fst (compact_loop (Suc r) w h)) (orders (snd (compact_loop (Suc r) w h))) =
              take w ?xs @ filter active ?rest"
        by blast+
      from tk have tk': "take (w + length (filter active ?rest)) (orders (snd (compact_loop (Suc r) w h))) =
              take w ?xs @ filter active ?rest"
        unfolding f .
      have g1: "fst (compact_loop r w h) = w + length (filter active (take (?n - r) (drop r ?xs)))"
        using False f by (simp add: step split)
      have g2: "take (w + length (filter active (take (?n - r) (drop r ?xs))))
                  (orders (snd (compact_loop r w h))) =
                take w ?xs @ filter active (take (?n - r) (drop r ?xs))"
        using False tk' by (simp add: step split)
      have g3: "take (fst (compact_loop r w h)) (orders (snd (compact_loop r w h))) =
                take w ?xs @ filter active (take (?n - r) (drop r ?xs))"
        by (simp only: g1) (rule g2)
      show ?thesis by (rule conjI [OF g1 g3])
    next
      case act: True
      define h' where "h' = (if w \<noteq> r then h\<lparr>orders := ?xs[w := ?xs ! r]\<rparr> else h)"
      define res where "res = compact_loop (Suc r) (Suc w) h'"
      have h': "h' = h\<lparr>orders := ?xs[w := ?xs ! r]\<rparr>"
        by (simp add: h'_def)
      have step: "compact_loop r w h = res"
        using True act unfolding res_def h'_def by (subst compact_loop.simps) simp
      have d: "drop (Suc r) (orders h') = drop (Suc r) ?xs"
        using "1.prems" by (simp add: h')
      have t: "take (Suc w) (orders h') = take w ?xs @ [?xs ! r]"
        using wl by (simp add: h' take_Suc_conv_app_nth)
      have n: "order_count h' = ?n" by (simp add: h')
      have l: "length (orders h') = length ?xs" by (simp add: h')
      have "fst res =
              Suc w + length (filter active (take (order_count h' - Suc r) (drop (Suc r) (orders h')))) \<and>
            take (fst res) (orders (snd res)) =
              take (Suc w) (orders h') @
              filter active (take (order_count h' - Suc r) (drop (Suc r) (orders h')))"
        unfolding res_def h'_def
      proof (rule "1.IH"(1) [OF True act])
        show "Suc w \<le> Suc r" using "1.prems" by simp
        show "Suc r \<le> order_count (if w \<noteq> r then h\<lparr>orders := ?xs[w := ?xs ! r]\<rparr> else h)"
          using True by simp
        show "order_count (if w \<noteq> r then h\<lparr>orders := ?xs[w := ?xs ! r]\<rparr> else h)
              \<le> length (orders (if w \<noteq> r then h\<lparr>orders := ?xs[w := ?xs ! r]\<rparr> else h))"
          using "1.prems" by simp
      qed
      note ih = this
      have f: "fst res = Suc w + length (filter active ?rest)"
        using ih [THEN conjunct1] unfolding d t n by simp
      have tk: "take (fst res) (orders (snd res)) = take w ?xs @ [?xs ! r] @ filter active ?rest"
        using ih [THEN conjunct2] unfolding d t n by simp
      from tk have tk': "take (Suc w + length (filter active ?rest)) (orders (snd res)) =
              take w ?xs @ [?xs ! r] @ filter active ?rest"
        unfolding f .
      have g1: "fst (compact_loop r w h) = w + length (filter active (take (?n - r) (drop r ?xs)))"
        using act f by (simp add: step split)
      have g2: "take (w + length (filter active (take (?n - r) (drop r ?xs))))
                  (orders (snd (compact_loop r w h))) =
                take w ?xs @ filter active (take (?n - r) (drop r ?xs))"
        using act tk' by (simp add: step split)
      have g3: "take (fst (compact_loop r w h)) (orders (snd (compact_loop r w h))) =
                take w ?xs @ filter active (take (?n - r) (drop r ?xs))"
        by (simp only: g1) (rule g2)
      show ?thesis by (rule conjI [OF g1 g3])
    qed
  qed
qed

lemma filter_active_mark: "filter active (map (spec_mark tick) ts) = spec_survivors tick ts"
  by (induction ts) (simp_all add: spec_mark_def spec_survivors_def)

subsection \<open>\<open>engine_step_tick\<close>\<close>

lemma account_state_orders_update [simp]:
  "account_state (h\<lparr>orders := xs\<rparr>) = account_state h"
  "account_state (h\<lparr>order_count := n\<rparr>) = account_state h"
  by (simp_all add: account_state_def)

lemma engine_step_tick_refines:
  assumes ok: "handle_ok h"
  shows "\<exists>h'. engine_step_tick (Some h) (Some tick) = (0, Some h') \<and>
           account_state h' =
             account_state (spec_scan tick (stored_orders h)
               (h\<lparr>current_ts_ms := tick_event_t.ts_ms tick,
                  last_tick_price := tick_event_t.price_tick tick\<rparr>)) \<and>
           stored_orders h' = spec_survivors tick (stored_orders h) \<and>
           handle_ok h'"
proof -
  let ?n = "order_count h"
  let ?xs = "orders h"
  define h1 where "h1 = h\<lparr>current_ts_ms := tick_event_t.ts_ms tick,
                             last_tick_price := tick_event_t.price_tick tick\<rparr>"
  define h2 where "h2 = fill_loop tick 0 h1"
  define res where "res = compact_loop 0 0 h2"
  define h' where "h' = (snd res)\<lparr>order_count := fst res\<rparr>"
  from ok have len: "length ?xs = MAX_OPEN_ORDERS" and n: "?n \<le> length ?xs"
    by (simp_all add: handle_ok_def)
  have h2: "h2 = (spec_scan tick (take ?n ?xs) h1)\<lparr>orders := map (spec_mark tick) (take ?n ?xs) @ drop ?n ?xs\<rparr>"
    using n fill_loop_spec [of 0 h1 tick] by (simp add: h2_def h1_def)
  have n2: "order_count h2 = ?n"
    by (simp add: h2 spec_scan_order_count h1_def)
  have o2: "orders h2 = map (spec_mark tick) (take ?n ?xs) @ drop ?n ?xs"
    by (simp add: h2)
  have l2: "length (orders h2) = length ?xs"
    using n by (simp add: o2)
  have t2: "take ?n (orders h2) = map (spec_mark tick) (take ?n ?xs)"
    using n by (simp add: o2)
  have frame: "snd res = h2\<lparr>orders := orders (snd res)\<rparr>"
    and l3: "length (orders (snd res)) = length (orders h2)"
    using compact_loop_frame [of 0 0 h2] by (simp_all add: res_def)
  have c: "fst res = 0 + length (filter active (take (order_count h2 - 0) (drop 0 (orders h2)))) \<and>
           take (fst res) (orders (snd res)) =
             take 0 (orders h2) @ filter active (take (order_count h2 - 0) (drop 0 (orders h2)))"
    unfolding res_def using n n2 l2 by (intro compact_loop_spec) simp_all
  have w: "fst res = length (spec_survivors tick (take ?n ?xs))"
    using c [THEN conjunct1] by (simp add: n2 t2 filter_active_mark)
  have tk: "take (fst res) (orders (snd res)) = spec_survivors tick (take ?n ?xs)"
    using c [THEN conjunct2] by (simp add: n2 t2 filter_active_mark)
  have wn: "fst res \<le> ?n"
  proof -
    have "length (spec_survivors tick (take ?n ?xs)) \<le> length (take ?n ?xs)"
      unfolding spec_survivors_def by (rule length_filter_le)
    with w n show ?thesis by simp
  qed
  have step: "engine_step_tick (Some h) (Some tick) = (0, Some h')"
    by (simp add: engine_step_tick_def Let_def h'_def res_def h2_def h1_def split: prod.split)
  have acc: "account_state h' = account_state (spec_scan tick (stored_orders h) h1)"
  proof -
    have "account_state h' = account_state (snd res)" by (simp add: h'_def)
    also have "\<dots> = account_state h2" by (subst frame) simp
    also have "\<dots> = account_state (spec_scan tick (take ?n ?xs) h1)" by (simp add: h2)
    finally show ?thesis by (simp add: stored_orders_def)
  qed
  have st: "stored_orders h' = spec_survivors tick (stored_orders h)"
    using tk by (simp add: stored_orders_def h'_def)
  have ok': "handle_ok h'"
    using wn ok l3 l2 by (simp add: handle_ok_def h'_def)
  from step acc st ok' show ?thesis unfolding h1_def by blast
qed


section \<open>Placing and cancelling orders\<close>

lemma handle_ok_zeroed: "handle_ok (zeroed_handle c)"
  by (simp add: handle_ok_def zeroed_handle_def)

lemma engine_place_order_full:
  "MAX_OPEN_ORDERS \<le> order_count h \<Longrightarrow> engine_place_order (Some h) (Some ord) = (- 2, Some h)"
  by (simp add: engine_place_order_def)

lemma engine_place_order_append:
  assumes "handle_ok h" "order_count h < MAX_OPEN_ORDERS"
  shows "\<exists>h'. engine_place_order (Some h) (Some ord) = (0, Some h') \<and>
           stored_orders h' = stored_orders h @ [\<lparr>order = ord, active = True\<rparr>] \<and>
           account_state h' = account_state h \<and> order_count h' = Suc (order_count h) \<and>
           handle_ok h'"
proof -
  let ?h' = "h\<lparr>orders := (orders h)[order_count h := \<lparr>order = ord, active = True\<rparr>],
              order_count := order_count h + 1\<rparr>"
  from assms have l: "order_count h < length (orders h)"
    by (simp add: handle_ok_def)
  have "engine_place_order (Some h) (Some ord) = (0, Some ?h')"
    using assms(2) by (simp add: engine_place_order_def)
  moreover have "stored_orders ?h' = stored_orders h @ [\<lparr>order = ord, active = True\<rparr>]"
    using l by (simp add: stored_orders_def take_Suc_conv_app_nth)
  moreover have "account_state ?h' = account_state h"
    by (simp add: account_state_def)
  moreover have "handle_ok ?h'"
    using assms by (simp add: handle_ok_def)
  ultimately show ?thesis by simp
qed

lemma cancel_loop_result:
  "cancel_loop i oid h = (rc, h') \<Longrightarrow>
     (rc = - 1 \<and> h' = h) \<or>
     (rc = 0 \<and> (\<exists>j. i \<le> j \<and> j < order_count h \<and> active (orders h ! j) \<and>
                     order_id (order (orders h ! j)) = oid \<and>
                     h' = h\<lparr>orders := (orders h)[j := (orders h ! j)\<lparr>active := False\<rparr>]\<rparr>))"
proof (induction i oid h rule: cancel_loop.induct)
  case (1 i oid h)
  show ?case
  proof (cases "i < order_count h")
    case False
    then have "cancel_loop i oid h = (- 1, h)"
      by (subst cancel_loop.simps) simp
    with "1.prems" show ?thesis by simp
  next
    case True
    show ?thesis
    proof (cases "active (orders h ! i) \<and> order_id (order (orders h ! i)) = oid")
      case hit: True
      with True have "cancel_loop i oid h =
          (0, h\<lparr>orders := (orders h)[i := (orders h ! i)\<lparr>active := False\<rparr>]\<rparr>)"
        by (subst cancel_loop.simps) simp
      with "1.prems" True hit show ?thesis by auto
    next
      case miss: False
      with True have "cancel_loop i oid h = cancel_loop (Suc i) oid h"
        by (subst cancel_loop.simps) auto
      with "1.prems" have "cancel_loop (Suc i) oid h = (rc, h')" by simp
      from "1.IH" [OF True miss this] show ?thesis
      proof
        assume "rc = - 1 \<and> h' = h"
        then show ?thesis by simp
      next
        assume "rc = 0 \<and> (\<exists>j\<ge>Suc i. j < order_count h \<and> active (orders h ! j) \<and>
                     order_id (order (orders h ! j)) = oid \<and>
                     h' = h\<lparr>orders := (orders h)[j := (orders h ! j)\<lparr>active := False\<rparr>]\<rparr>)"
        then obtain j where "rc = 0" "Suc i \<le> j" "j < order_count h" "active (orders h ! j)"
          "order_id (order (orders h ! j)) = oid"
          "h' = h\<lparr>orders := (orders h)[j := (orders h ! j)\<lparr>active := False\<rparr>]\<rparr>"
          by blast
        moreover from \<open>Suc i \<le> j\<close> have "i \<le> j" by simp
        ultimately show ?thesis by blast
      qed
    qed
  qed
qed

lemma filter_update_inactive:
  assumes "j < length ys" "P (ys ! j)" "\<not> P y"
  shows "Suc (length (filter P (ys[j := y]))) = length (filter P ys)"
proof -
  have "ys = take j ys @ ys ! j # drop (Suc j) ys"
    using assms(1) by (rule id_take_nth_drop)
  then have "length (filter P ys) =
      length (filter P (take j ys)) + Suc (length (filter P (drop (Suc j) ys)))"
    using assms(2) by (metis filter.simps(2) filter_append length_Cons length_append)
  moreover have "ys[j := y] = take j ys @ y # drop (Suc j) ys"
    using assms(1) by (rule upd_conv_take_nth_drop)
  then have "length (filter P (ys[j := y])) =
      length (filter P (take j ys)) + length (filter P (drop (Suc j) ys))"
    using assms(3) by simp
  ultimately show ?thesis by simp
qed

lemma engine_cancel_order_ok:
  assumes ok: "handle_ok h" and c: "engine_cancel_order (Some h) oid = (0, Some h')"
  shows "order_count h' = order_count h \<and> account_state h' = account_state h \<and>
         handle_ok h' \<and> length (stored_orders h') = length (stored_orders h) \<and>
         Suc (length (live_orders h')) = length (live_orders h)"
proof -
  obtain rc hh where cl: "cancel_loop 0 oid h = (rc, hh)"
    by (cases "cancel_loop 0 oid h")
  with c have rc: "rc = 0" and hh: "hh = h'"
    by (simp_all add: engine_cancel_order_def)
  from cancel_loop_result [OF cl] rc hh obtain j where
    j: "j < order_count h" "active (orders h ! j)"
    and h': "h' = h\<lparr>orders := (orders h)[j := (orders h ! j)\<lparr>active := False\<rparr>]\<rparr>"
    by auto
  from ok have n: "order_count h \<le> length (orders h)"
    by (simp add: handle_ok_def)
  let ?ys = "take (order_count h) (orders h)"
  have st: "stored_orders h' = ?ys[j := (orders h ! j)\<lparr>active := False\<rparr>]"
    by (simp add: stored_orders_def h' take_update_swap)
  have "Suc (length (filter active (?ys[j := (orders h ! j)\<lparr>active := False\<rparr>]))) =
        length (filter active ?ys)"
    using j n by (intro filter_update_inactive) simp_all
  then have "Suc (length (live_orders h')) = length (live_orders h)"
    by (simp add: live_orders_def st) (simp add: stored_orders_def)
  moreover have "length (stored_orders h') = length (stored_orders h)"
    by (simp add: st) (simp add: stored_orders_def)
  moreover have "handle_ok h'" using ok by (simp add: handle_ok_def h')
  moreover have "account_state h' = account_state h" by (simp add: h')
  moreover have "order_count h' = order_count h" by (simp add: h')
  ultimately show ?thesis by simp
qed

lemma engine_cancel_order_some:
  "\<exists>rc h'. engine_cancel_order (Some h) oid = (rc, Some h') \<and>
     (rc = - 1 \<and> h' = h \<or> rc = 0)"
proof -
  obtain rc hh where cl: "cancel_loop 0 oid h = (rc, hh)"
    by (cases "cancel_loop 0 oid h")
  from cancel_loop_result [OF cl] have "rc = - 1 \<and> hh = h \<or> rc = 0" by auto
  with cl show ?thesis by (simp add: engine_cancel_order_def)
qed

section \<open>Fill execution\<close>

text \<open>
  Claim C2. On every fill with fill tick \<open>p\<close> and order quantity \<open>qty ord\<close> (micro-units) the
  notional is \<open>N = (p * tick_size) * (qty / 1e6)\<close> and the fee is \<open>N * (taker_fee_bps / 10000)\<close>;
  a buy leaves \<open>cash - (N + fee)\<close> and a sell \<open>cash + (N - fee)\<close>; the cash after the fill
  does not depend on \<open>maker_fee_bps\<close>, and \<open>realized_pnl\<close> after the fill does not depend on
  either fee rate (it is gross).
\<close>

theorem execute_fill_cash_and_fee:
  "(let N = (real_of_int p * tick_size (config h)) * (real_of_int (qty ord) / 1000000);
        fee = N * (taker_fee_bps (config h) / 10000)
    in cash (execute_fill h ord p) =
         (if side ord = SIDE_BUY then cash h - (N + fee) else cash h + (N - fee))) \<and>
   cash (execute_fill (h\<lparr>config := (config h)\<lparr>maker_fee_bps := m\<rparr>\<rparr>) ord p) =
     cash (execute_fill h ord p) \<and>
   realized_pnl (execute_fill (h\<lparr>config := (config h)\<lparr>maker_fee_bps := m, taker_fee_bps := t\<rparr>\<rparr>) ord p) =
     realized_pnl (execute_fill h ord p)"
  by (simp add: execute_fill_def calculate_fee_def Let_def)

text \<open>
  With a taker fee of 10 basis points and a maker fee of 3: buying 1.0 at tick 100 costs
  100.1, and selling the 1.0 at tick 110 realizes 10 whatever the fee rates are.
\<close>

theorem execute_fill_cash_and_fee_witness:
  "cash (execute_fill (zeroed_handle (example_config\<lparr>maker_fee_bps := 3, taker_fee_bps := 10\<rparr>))
           (market_order 1 SIDE_BUY 1000000) 100) = 100000 - (100 + 1 / 10) \<and>
   realized_pnl (execute_fill
      ((zeroed_handle (example_config\<lparr>maker_fee_bps := 3, taker_fee_bps := 10\<rparr>))
         \<lparr>position := 1000000, avg_entry_price := 100\<rparr>)
      (market_order 2 SIDE_SELL 1000000) 110) = 10"
  using execute_fill_cash_and_fee
    [of 100 "zeroed_handle (example_config\<lparr>maker_fee_bps := 3, taker_fee_bps := 10\<rparr>)"
        "market_order 1 SIDE_BUY 1000000" 0 0]
    execute_fill_cash_and_fee
    [of 110 "(zeroed_handle example_config)\<lparr>position := 1000000, avg_entry_price := 100\<rparr>"
        "market_order 2 SIDE_SELL 1000000" 3 10]
  by (simp add: zeroed_handle_def example_config_def market_order_def execute_fill_def
        calculate_fee_def Let_def)

section \<open>Handle creation\<close>

text \<open>
  Claim C8, as the code has it. \<open>engine_new\<close> validates nothing: it returns \<open>NULL\<close> exactly
  when the configuration pointer is \<open>NULL\<close> or the allocation fails. For every configuration
  (whatever its tick size, fees, spread and initial cash) it returns a handle with
  \<open>cash = initial_cash\<close>, position, average entry price, realized P&L, timestamp and last
  tick price all 0, and no stored order.
\<close>

theorem engine_new_no_validation:
  "(engine_new malloc_ok cfg = None) = (cfg = None \<or> \<not> malloc_ok) \<and>
   engine_new True (Some c) = Some (zeroed_handle c) \<and>
   config (zeroed_handle c) = c \<and>
   cash (zeroed_handle c) = initial_cash c \<and>
   position (zeroed_handle c) = 0 \<and>
   avg_entry_price (zeroed_handle c) = 0 \<and>
   realized_pnl (zeroed_handle c) = 0 \<and>
   current_ts_ms (zeroed_handle c) = 0 \<and>
   last_tick_price (zeroed_handle c) = 0 \<and>
   order_count (zeroed_handle c) = 0 \<and>
   stored_orders (zeroed_handle c) = [] \<and>
   live_orders (zeroed_handle c) = []"
  by (cases cfg) (simp_all add: engine_new_def zeroed_handle_def stored_orders_def live_orders_def)

theorem engine_new_no_validation_witness:
  "engine_new True (Some example_config) = Some (zeroed_handle example_config) \<and>
   cash (zeroed_handle example_config) = 100000 \<and>
   stored_orders (zeroed_handle example_config) = []"
  using engine_new_no_validation [of True "Some example_config" example_config]
  by (simp add: example_config_def)

text \<open>
  The claim as stated fails: a configuration with tick size 0 (and one with tick size -1)
  is accepted.
\<close>

theorem engine_new_zero_tick_size_counterexample:
  "tick_size (example_config\<lparr>tick_size := 0\<rparr>) \<le> 0 \<and>
   engine_new True (Some (example_config\<lparr>tick_size := 0\<rparr>)) =
     Some (zeroed_handle (example_config\<lparr>tick_size := 0\<rparr>)) \<and>
   tick_size (example_config\<lparr>tick_size := - 1\<rparr>) \<le> 0 \<and>
   engine_new True (Some (example_config\<lparr>tick_size := - 1\<rparr>)) =
     Some (zeroed_handle (example_config\<lparr>tick_size := - 1\<rparr>))"
  by (simp add: engine_new_def)

section \<open>The snapshot\<close>

lemma engine_get_snapshot_position:
  "snapshot_t.position (engine_get_snapshot (Some h)) = engine_handle_t.position h"
  by (simp add: engine_get_snapshot_def)

text \<open>
  Claim C9, for \<open>get_snapshot\<close> as the specification describes it over the kernel's
  \<open>engine_get_snapshot\<close>. For every handle, the position of the public snapshot is the
  internally stored micro-unit position divided by 1e6 (as doubles); the kernel's own
  \<open>snapshot_t\<close> carries the micro-unit integer, and every other field passes through
  unchanged.
\<close>

theorem get_snapshot_position_real_units:
  "Snapshot.position (get_snapshot h) =
     double_div (double_of_int (engine_handle_t.position h)) 1000000 \<and>
   snapshot_t.position (engine_get_snapshot (Some h)) = engine_handle_t.position h \<and>
   Snapshot.ts_ms (get_snapshot h) = current_ts_ms h \<and>
   Snapshot.cash (get_snapshot h) = engine_handle_t.cash h \<and>
   Snapshot.avg_entry_price (get_snapshot h) = engine_handle_t.avg_entry_price h \<and>
   Snapshot.realized_pnl (get_snapshot h) = engine_handle_t.realized_pnl h \<and>
   Snapshot.unrealized_pnl (get_snapshot h) = calculate_unrealized_pnl h \<and>
   Snapshot.equity (get_snapshot h) = engine_handle_t.cash h + calculate_unrealized_pnl h"
  by (simp add: get_snapshot_def Let_def engine_get_snapshot_def)

text \<open>
  After a market buy of 1.5 (1500000 micro-units) filled at tick 100 the kernel stores
  1500000 and the public snapshot shows 1.5.
\<close>

theorem get_snapshot_position_real_units_witness:
  "map_option engine_handle_t.position
     (run (engine_new True (Some example_config))
        [PlaceOrder (market_order 1 SIDE_BUY 1500000), StepTick (tick_at 1 100)]) = Some 1500000 \<and>
   map_option (\<lambda>h. Snapshot.position (get_snapshot h))
     (run (engine_new True (Some example_config))
        [PlaceOrder (market_order 1 SIDE_BUY 1500000), StepTick (tick_at 1 100)]) = Some (3 / 2)"
proof -
  let ?r = "run (engine_new True (Some example_config))
        [PlaceOrder (market_order 1 SIDE_BUY 1500000), StepTick (tick_at 1 100)]"
  have p: "map_option engine_handle_t.position ?r = Some 1500000"
    by (simp add: run_def engine_new_def zeroed_handle_def engine_place_order_def
        MAX_OPEN_ORDERS_def engine_step_tick_def fill_loop.simps compact_loop.simps
        fill_body_def example_config_def market_order_def tick_at_def should_fill_order_def
        apply_spread_def execute_fill_def calculate_fee_def Let_def)
  then obtain h where h: "?r = Some h" and ph: "engine_handle_t.position h = 1500000"
    by auto
  from get_snapshot_position_real_units [of h] ph
  have "Snapshot.position (get_snapshot h) = 3 / 2"
    by (simp add: double_of_int_1500000 double_div_1500000)
  with p h show ?thesis by simp
qed

section \<open>Order placement\<close>

text \<open>
  Claim C7, as the code has it. \<open>engine_place_order\<close> checks the capacity and nothing else.
  When the stored order count has reached \<open>MAX_OPEN_ORDERS\<close> it fails with code -2
  (order book full) and leaves the handle unchanged; otherwise it succeeds for every order,
  whatever its quantity, limit tick or id, storing it as the last stored order, active,
  with the account untouched. (It fails with code -1 only for a \<open>NULL\<close> argument.)
\<close>

theorem engine_place_order_capacity_only:
  assumes "handle_ok h"
  shows "(MAX_OPEN_ORDERS \<le> order_count h \<longrightarrow>
            engine_place_order (Some h) (Some ord) = (- 2, Some h)) \<and>
         (order_count h < MAX_OPEN_ORDERS \<longrightarrow>
            (\<exists>h'. engine_place_order (Some h) (Some ord) = (0, Some h') \<and>
                  stored_orders h' = stored_orders h @ [\<lparr>order = ord, active = True\<rparr>] \<and>
                  account_state h' = account_state h \<and> handle_ok h')) \<and>
         engine_place_order None (Some ord) = (- 1, None) \<and>
         engine_place_order (Some h) None = (- 1, Some h)"
proof (intro conjI impI)
  assume "MAX_OPEN_ORDERS \<le> order_count h"
  then show "engine_place_order (Some h) (Some ord) = (- 2, Some h)"
    by (rule engine_place_order_full)
next
  assume "order_count h < MAX_OPEN_ORDERS"
  with assms engine_place_order_append [of h ord]
  show "\<exists>h'. engine_place_order (Some h) (Some ord) = (0, Some h') \<and>
              stored_orders h' = stored_orders h @ [\<lparr>order = ord, active = True\<rparr>] \<and>
              account_state h' = account_state h \<and> handle_ok h'"
    by blast
next
  show "engine_place_order None (Some ord) = (- 1, None)"
    by (simp add: engine_place_order_def)
next
  show "engine_place_order (Some h) None = (- 1, Some h)"
    by (simp add: engine_place_order_def)
qed

text \<open>
  A fresh handle has room, so a limit buy of 1.0 at tick 100 is stored as its only order;
  a handle whose count is \<open>MAX_OPEN_ORDERS\<close> refuses it and stays as it is.
\<close>

theorem engine_place_order_capacity_only_witness:
  "handle_ok (zeroed_handle example_config) \<and>
   order_count (zeroed_handle example_config) < MAX_OPEN_ORDERS \<and>
   (\<exists>h'. engine_place_order (Some (zeroed_handle example_config))
            (Some (limit_order 1 SIDE_BUY 1000000 100)) = (0, Some h') \<and>
          stored_orders h' = [\<lparr>order = limit_order 1 SIDE_BUY 1000000 100, active = True\<rparr>]) \<and>
   handle_ok ((zeroed_handle example_config)\<lparr>order_count := MAX_OPEN_ORDERS\<rparr>) \<and>
   MAX_OPEN_ORDERS \<le> order_count ((zeroed_handle example_config)\<lparr>order_count := MAX_OPEN_ORDERS\<rparr>) \<and>
   engine_place_order (Some ((zeroed_handle example_config)\<lparr>order_count := MAX_OPEN_ORDERS\<rparr>))
     (Some (limit_order 1 SIDE_BUY 1000000 100)) =
     (- 2, Some ((zeroed_handle example_config)\<lparr>order_count := MAX_OPEN_ORDERS\<rparr>))"
proof -
  have ok: "handle_ok (zeroed_handle example_config)"
    by (rule handle_ok_zeroed)
  have room: "order_count (zeroed_handle example_config) < MAX_OPEN_ORDERS"
    by (simp add: zeroed_handle_def MAX_OPEN_ORDERS_def)
  have ok': "handle_ok ((zeroed_handle example_config)\<lparr>order_count := MAX_OPEN_ORDERS\<rparr>)"
    by (simp add: handle_ok_def zeroed_handle_def)
  have st: "stored_orders (zeroed_handle example_config) = []"
    by (simp add: stored_orders_def zeroed_handle_def)
  from engine_place_order_capacity_only [OF ok, of "limit_order 1 SIDE_BUY 1000000 100"] room st
  have "\<exists>h'. engine_place_order (Some (zeroed_handle example_config))
            (Some (limit_order 1 SIDE_BUY 1000000 100)) = (0, Some h') \<and>
          stored_orders h' = [\<lparr>order = limit_order 1 SIDE_BUY 1000000 100, active = True\<rparr>]"
    by auto
  moreover from engine_place_order_capacity_only [OF ok', of "limit_order 1 SIDE_BUY 1000000 100"]
  have "engine_place_order (Some ((zeroed_handle example_config)\<lparr>order_count := MAX_OPEN_ORDERS\<rparr>))
     (Some (limit_order 1 SIDE_BUY 1000000 100)) =
     (- 2, Some ((zeroed_handle example_config)\<lparr>order_count := MAX_OPEN_ORDERS\<rparr>))"
    by simp
  ultimately show ?thesis using ok room ok' by simp
qed

text \<open>
  The claim as stated fails. On a fresh handle a limit order with quantity 0 and limit tick
  0 is accepted (the claim: invalid-order), and so is a second order with the id of the
  first, still live, order (the claim: duplicate-id); both end up stored and active.
\<close>

theorem engine_place_order_accepts_invalid_counterexample:
  "fst (engine_place_order (engine_new True (Some example_config))
          (Some (limit_order 7 SIDE_BUY 0 0))) = 0 \<and>
   fst (engine_place_order
          (snd (engine_place_order (engine_new True (Some example_config))
                  (Some (limit_order 7 SIDE_BUY 1000000 100))))
          (Some (limit_order 7 SIDE_SELL 2000000 120))) = 0 \<and>
   map_option live_orders
     (run (engine_new True (Some example_config))
        [PlaceOrder (limit_order 7 SIDE_BUY 0 0), PlaceOrder (limit_order 7 SIDE_BUY 1000000 100),
         PlaceOrder (limit_order 7 SIDE_SELL 2000000 120)]) =
     Some [limit_order 7 SIDE_BUY 0 0, limit_order 7 SIDE_BUY 1000000 100,
           limit_order 7 SIDE_SELL 2000000 120]"
  by (simp add: run_def engine_new_def zeroed_handle_def engine_place_order_def
        MAX_OPEN_ORDERS_def live_orders_def stored_orders_def take_Suc_conv_app_nth)

section \<open>Spread\<close>

lemma apply_spread_formula:
  "apply_spread h base s =
     (if s = SIDE_BUY
      then base + \<lceil>double_mul (double_of_int base) (double_div (spread_bps (config h)) 10000)\<rceil>
      else base - \<lceil>double_mul (double_of_int base) (double_div (spread_bps (config h)) 10000)\<rceil>)"
  by (simp add: apply_spread_def Let_def)

lemma fill_body_account:
  assumes "active (orders h ! i)" "should_fill_order (order (orders h ! i)) tick"
  shows "account_state (fill_body tick i h) =
         account_state (execute_fill h (order (orders h ! i))
           (apply_spread h
              (if type (order (orders h ! i)) = ORDER_TYPE_MARKET
               then tick_event_t.price_tick tick else price_tick (order (orders h ! i)))
              (side (order (orders h ! i)))))"
  using assms by (simp add: fill_body_def Let_def)

text \<open>
  Claim C4, for the non-negative ticks the kernel is designed for and in the arithmetic
  the code uses. With a spread of at least 0 and a base tick of at least 0, let
  \<open>s = spread_bps / 10000\<close> and \<open>offset = \<lceil>|base| * s\<rceil>\<close>, the quotient and then the product
  each rounded to a double. The offset is an integer of at least 0, a buy fills at
  \<open>base + offset\<close> and a sell at \<open>base - offset\<close>. The fill loop applies this one rule to both
  kinds of order: an order that fills is executed at \<open>apply_spread\<close> of the tick's price
  when it is a market order and of its own limit tick when it is a limit order.
\<close>

theorem apply_spread_nonneg_price:
  "(0 \<le> spread_bps (config h) \<and> 0 \<le> base \<longrightarrow>
      (let s = double_div (spread_bps (config h)) 10000;
           offset_ticks = \<lceil>double_mul \<bar>double_of_int base\<bar> s\<rceil>
       in 0 \<le> offset_ticks \<and>
          apply_spread h base SIDE_BUY = base + offset_ticks \<and>
          apply_spread h base SIDE_SELL = base - offset_ticks)) \<and>
   (active (orders h ! i) \<and> should_fill_order (order (orders h ! i)) tick \<longrightarrow>
      account_state (fill_body tick i h) =
        account_state (execute_fill h (order (orders h ! i))
          (apply_spread h
             (if type (order (orders h ! i)) = ORDER_TYPE_MARKET
              then tick_event_t.price_tick tick else price_tick (order (orders h ! i)))
             (side (order (orders h ! i))))))"
proof (intro conjI impI)
  assume a: "0 \<le> spread_bps (config h) \<and> 0 \<le> base"
  let ?s = "double_div (spread_bps (config h)) 10000"
  from a have b: "0 \<le> double_of_int base"
    by (simp add: double_of_int_nonneg)
  from a have "0 \<le> ?s"
    by (simp add: double_div_nonneg)
  with b have "0 \<le> double_mul (double_of_int base) ?s"
    by (rule double_mul_nonneg)
  then have "0 \<le> \<lceil>double_mul (double_of_int base) ?s\<rceil>"
    by (simp add: le_ceiling_iff)
  moreover from b have "\<bar>double_of_int base\<bar> = double_of_int base"
    by simp
  ultimately show "let s = double_div (spread_bps (config h)) 10000;
           offset_ticks = \<lceil>double_mul \<bar>double_of_int base\<bar> s\<rceil>
       in 0 \<le> offset_ticks \<and>
          apply_spread h base SIDE_BUY = base + offset_ticks \<and>
          apply_spread h base SIDE_SELL = base - offset_ticks"
    by (simp add: apply_spread_formula Let_def)
next
  assume "active (orders h ! i) \<and> should_fill_order (order (orders h ! i)) tick"
  then show "account_state (fill_body tick i h) =
        account_state (execute_fill h (order (orders h ! i))
          (apply_spread h
             (if type (order (orders h ! i)) = ORDER_TYPE_MARKET
              then tick_event_t.price_tick tick else price_tick (order (orders h ! i)))
             (side (order (orders h ! i)))))"
    by (simp add: fill_body_account)
qed

text \<open>
  Scenario S4 of the specification: with a spread of 100 basis points, a buy at tick 100
  fills at 101 and a sell at 99 (the double of 0.01 times 100 rounds to 1); a market buy of
  1.0 stored in slot 0 and met by a tick at 100 pays 101.
\<close>

theorem apply_spread_nonneg_price_witness:
  "0 \<le> spread_bps (config (zeroed_handle (example_config\<lparr>spread_bps := 100\<rparr>))) \<and>
   (0::int) \<le> 100 \<and>
   apply_spread (zeroed_handle (example_config\<lparr>spread_bps := 100\<rparr>)) 100 SIDE_BUY = 101 \<and>
   apply_spread (zeroed_handle (example_config\<lparr>spread_bps := 100\<rparr>)) 100 SIDE_SELL = 99 \<and>
   active (orders ((zeroed_handle (example_config\<lparr>spread_bps := 100\<rparr>))
     \<lparr>orders := [\<lparr>order = market_order 1 SIDE_BUY 1000000, active = True\<rparr>],
      order_count := 1\<rparr>) ! 0) \<and>
   cash (fill_body (tick_at 1 100) 0
     ((zeroed_handle (example_config\<lparr>spread_bps := 100\<rparr>))
        \<lparr>orders := [\<lparr>order = market_order 1 SIDE_BUY 1000000, active = True\<rparr>],
         order_count := 1\<rparr>)) = 100000 - 101"
proof -
  let ?h = "zeroed_handle (example_config\<lparr>spread_bps := 100\<rparr>)"
  let ?h1 = "?h\<lparr>orders := [\<lparr>order = market_order 1 SIDE_BUY 1000000, active = True\<rparr>],
               order_count := 1\<rparr>"
  have s: "0 \<le> spread_bps (config ?h)"
    by (simp add: zeroed_handle_def example_config_def)
  have sp: "spread_bps (config ?h) = 100"
    by (simp add: zeroed_handle_def example_config_def)
  have c: "\<lceil>double_mul \<bar>double_of_int 100\<bar> (double_div (spread_bps (config ?h)) 10000)\<rceil> = 1"
    by (simp add: sp double_of_int_100 double_div_100_10000 double_mul_100_bps_100)
  have a: "active (orders ?h1 ! 0)" "should_fill_order (order (orders ?h1 ! 0)) (tick_at 1 100)"
    by (simp_all add: should_fill_order_def market_order_def)
  from apply_spread_nonneg_price [of ?h 100] s c
  have b: "apply_spread ?h 100 SIDE_BUY = 101" and d: "apply_spread ?h 100 SIDE_SELL = 99"
    by (simp_all add: Let_def)
  have e: "apply_spread ?h1 100 SIDE_BUY = 101"
    using b by (simp add: apply_spread_def)
  note r = apply_spread_nonneg_price [of ?h1 0 0 "tick_at 1 100", THEN conjunct2, rule_format,
      OF conjI [OF a]]
  have "cash (fill_body (tick_at 1 100) 0 ?h1) =
        cash (execute_fill ?h1 (order (orders ?h1 ! 0))
          (apply_spread ?h1
             (if type (order (orders ?h1 ! 0)) = ORDER_TYPE_MARKET
              then tick_event_t.price_tick (tick_at 1 100) else price_tick (order (orders ?h1 ! 0)))
             (side (order (orders ?h1 ! 0)))))"
    using r by (simp add: account_state_def)
  also have "\<dots> = cash (execute_fill ?h1 (market_order 1 SIDE_BUY 1000000) 101)"
    using e by (simp add: market_order_def tick_at_def)
  also have "\<dots> = 100000 - 101"
    by (simp add: execute_fill_def calculate_fee_def Let_def market_order_def zeroed_handle_def
          example_config_def)
  finally show ?thesis using s b d a(1) by simp
qed

text \<open>
  The claim as stated fails in two ways. For a negative base tick the code takes no
  absolute value: with a spread of 100 basis points and base tick -100 the code's offset is
  -1, so a buy fills at -101 and a sell at -99, where the claim's offset
  \<open>\<lceil>|-100| * 100 / 10000\<rceil> = 1\<close> gives -99 and -101. And the code rounds
  \<open>spread_bps / 10000\<close> to a double before it multiplies: with 700 basis points and base tick
  100 the product is the double above 7, the offset is 8 and a buy fills at 108 and a sell
  at 92, where the claim's \<open>\<lceil>|100| * 700 / 10000\<rceil> = 7\<close> gives 107 and 93.
\<close>

theorem apply_spread_claimed_offset_counterexample:
  "apply_spread (zeroed_handle (example_config\<lparr>spread_bps := 100\<rparr>)) (- 100) SIDE_BUY = - 101 \<and>
   apply_spread (zeroed_handle (example_config\<lparr>spread_bps := 100\<rparr>)) (- 100) SIDE_SELL = - 99 \<and>
   \<lceil>\<bar>real_of_int (- 100)\<bar> *
      spread_bps (config (zeroed_handle (example_config\<lparr>spread_bps := 100\<rparr>))) / 10000\<rceil> = 1 \<and>
   apply_spread (zeroed_handle (example_config\<lparr>spread_bps := 700\<rparr>)) 100 SIDE_BUY = 108 \<and>
   apply_spread (zeroed_handle (example_config\<lparr>spread_bps := 700\<rparr>)) 100 SIDE_SELL = 92 \<and>
   \<lceil>\<bar>real_of_int 100\<bar> *
      spread_bps (config (zeroed_handle (example_config\<lparr>spread_bps := 700\<rparr>))) / 10000\<rceil> = 7"
proof -
  have c: "\<lceil>7881299347898369 / 1125899906842624 :: real\<rceil> = 8"
    by (simp add: ceiling_eq_iff)
  show ?thesis
    by (simp add: apply_spread_def zeroed_handle_def example_config_def Let_def
          double_of_int_100 double_div_100_10000 double_div_700_10000 double_mul_100_bps_100
          double_mul_100_bps_700 c ceiling_minus)
qed

text \<open>Another in-domain input: 51 basis points at tick 10000 give 10052 and 9948.\<close>

lemma apply_spread_51_bps:
  "apply_spread (zeroed_handle (example_config\<lparr>spread_bps := 51\<rparr>)) 10000 SIDE_BUY = 10052 \<and>
   apply_spread (zeroed_handle (example_config\<lparr>spread_bps := 51\<rparr>)) 10000 SIDE_SELL = 9948"
proof -
  have d: "double_div 51 10000 = 734987459186865 / 144115188075855872"
    unfolding double_div_def
    by (subst round_double_eval [of "- 8"]) (simp_all add: pow2_def round_half_even_def Let_def)
  have i: "double_of_int 10000 = 10000"
    unfolding double_of_int_def
    by (subst round_double_eval [of 13]) (simp_all add: pow2_def round_half_even_def Let_def)
  have m: "double_mul 10000 (734987459186865 / 144115188075855872) =
      7177611906121729 / 140737488355328"
    unfolding double_mul_def
    by (subst round_double_eval [of 5]) (simp_all add: pow2_def round_half_even_def Let_def)
  have c: "\<lceil>7177611906121729 / 140737488355328 :: real\<rceil> = 52"
    by (simp add: ceiling_eq_iff)
  show ?thesis
    by (simp add: apply_spread_def zeroed_handle_def example_config_def Let_def d i m c)
qed

section \<open>Operation sequences\<close>

lemma apply_op_some:
  assumes ok: "handle_ok h"
  shows "\<exists>h'. apply_op (Some h) x = Some h' \<and> handle_ok h' \<and> config h' = config h"
proof (cases x)
  case Reset
  then show ?thesis
    by (simp add: engine_reset_def handle_ok_zeroed) (simp add: zeroed_handle_def)
next
  case (StepTick tick)
  from engine_step_tick_refines [OF ok, of tick] obtain h' where
    s: "engine_step_tick (Some h) (Some tick) = (0, Some h')"
    and a: "account_state h' =
             account_state (spec_scan tick (stored_orders h)
               (h\<lparr>current_ts_ms := tick_event_t.ts_ms tick,
                  last_tick_price := tick_event_t.price_tick tick\<rparr>))"
    and ok': "handle_ok h'"
    by blast
  from a have "config h' = config h"
    by (simp add: account_state_def spec_scan_config)
  with s ok' StepTick show ?thesis by simp
next
  case (PlaceOrder ord)
  show ?thesis
  proof (cases "order_count h < MAX_OPEN_ORDERS")
    case True
    from engine_place_order_append [OF ok True, of ord] obtain h' where
      "engine_place_order (Some h) (Some ord) = (0, Some h')"
      "account_state h' = account_state h" "handle_ok h'"
      by blast
    with PlaceOrder show ?thesis by (simp add: account_state_def)
  next
    case False
    then have "engine_place_order (Some h) (Some ord) = (- 2, Some h)"
      by (intro engine_place_order_full) simp
    with PlaceOrder ok show ?thesis by simp
  qed
next
  case (CancelOrder oid)
  from engine_cancel_order_some [of h oid] obtain rc h' where
    c: "engine_cancel_order (Some h) oid = (rc, Some h')" and d: "rc = - 1 \<and> h' = h \<or> rc = 0"
    by blast
  from d show ?thesis
  proof
    assume "rc = - 1 \<and> h' = h"
    with c CancelOrder ok show ?thesis by simp
  next
    assume "rc = 0"
    with c engine_cancel_order_ok [OF ok, of oid h']
    have "handle_ok h'" "account_state h' = account_state h" by simp_all
    with c CancelOrder show ?thesis by (simp add: account_state_def)
  qed
qed

lemma run_some:
  "handle_ok h \<Longrightarrow> \<exists>h'. run (Some h) ops = Some h' \<and> handle_ok h' \<and> config h' = config h"
proof (induction ops arbitrary: h)
  case Nil
  then show ?case by (simp add: run_def)
next
  case (Cons x ops)
  from apply_op_some [OF Cons.prems, of x] obtain h1 where
    h1: "apply_op (Some h) x = Some h1" "handle_ok h1" "config h1 = config h"
    by blast
  from Cons.IH [OF h1(2)] obtain h' where
    "run (Some h1) ops = Some h'" "handle_ok h'" "config h' = config h1"
    by blast
  with h1 show ?case by (simp add: run_def)
qed

section \<open>Conservation\<close>

text \<open>
  Claim C6. Whatever sequence of resets, tick steps, placements and cancellations follows
  the creation of a handle, the kernel still holds a handle with the configuration it was
  created with, and its snapshot satisfies \<open>equity = cash + unrealized_pnl\<close>,
  \<open>unrealized_pnl = 0\<close> when the position is 0, and otherwise
  \<open>unrealized_pnl = (position / 1e6) * (last_tick_price - avg_entry_price) * tick_size\<close>,
  where position, average entry price and cash are the handle's current ones.
\<close>

theorem snapshot_conservation:
  "\<exists>h. run (engine_new True (Some cfg)) ops = Some h \<and> config h = cfg \<and>
     (let s = engine_get_snapshot (Some h)
      in equity s = snapshot_t.cash s + unrealized_pnl s \<and>
         (snapshot_t.position s = 0 \<longrightarrow> unrealized_pnl s = 0) \<and>
         (snapshot_t.position s \<noteq> 0 \<longrightarrow>
            unrealized_pnl s =
              (real_of_int (snapshot_t.position s) / 1000000) *
              (real_of_int (last_tick_price h) - snapshot_t.avg_entry_price s) * tick_size cfg) \<and>
         snapshot_t.position s = position h \<and>
         snapshot_t.avg_entry_price s = avg_entry_price h \<and>
         snapshot_t.cash s = cash h)"
proof -
  from run_some [OF handle_ok_zeroed, of cfg ops] obtain h where
    r: "run (Some (zeroed_handle cfg)) ops = Some h" and c: "config h = config (zeroed_handle cfg)"
    by blast
  from c have c': "config h = cfg" by (simp add: zeroed_handle_def)
  have "let s = engine_get_snapshot (Some h)
      in equity s = snapshot_t.cash s + unrealized_pnl s \<and>
         (snapshot_t.position s = 0 \<longrightarrow> unrealized_pnl s = 0) \<and>
         (snapshot_t.position s \<noteq> 0 \<longrightarrow>
            unrealized_pnl s =
              (real_of_int (snapshot_t.position s) / 1000000) *
              (real_of_int (last_tick_price h) - snapshot_t.avg_entry_price s) * tick_size cfg) \<and>
         snapshot_t.position s = position h \<and>
         snapshot_t.avg_entry_price s = avg_entry_price h \<and>
         snapshot_t.cash s = cash h"
    by (simp add: engine_get_snapshot_def calculate_unrealized_pnl_def Let_def c' algebra_simps)
  with r c' show ?thesis by (auto simp: engine_new_def)
qed

text \<open>
  Scenario S1 of the specification, up to the second tick: a market buy of 1.5 fills at tick
  100, the market moves to 110 and back to 100 after a reset.
\<close>

theorem snapshot_conservation_witness:
  "unrealized_pnl (engine_get_snapshot
     (run (engine_new True (Some example_config))
        [PlaceOrder (market_order 1 SIDE_BUY 1500000), StepTick (tick_at 1 100),
         StepTick (tick_at 2 110)])) = 15 \<and>
   equity (engine_get_snapshot
     (run (engine_new True (Some example_config))
        [PlaceOrder (market_order 1 SIDE_BUY 1500000), StepTick (tick_at 1 100),
         StepTick (tick_at 2 110)])) = 100000 - 150 + 15 \<and>
   snapshot_t.position (engine_get_snapshot
     (run (engine_new True (Some example_config))
        [PlaceOrder (market_order 1 SIDE_BUY 1500000), StepTick (tick_at 1 100), Reset])) = 0 \<and>
   unrealized_pnl (engine_get_snapshot
     (run (engine_new True (Some example_config))
        [PlaceOrder (market_order 1 SIDE_BUY 1500000), StepTick (tick_at 1 100), Reset])) = 0"
proof -
  let ?ops1 = "[PlaceOrder (market_order 1 SIDE_BUY 1500000), StepTick (tick_at 1 100),
         StepTick (tick_at 2 110)]"
  let ?ops2 = "[PlaceOrder (market_order 1 SIDE_BUY 1500000), StepTick (tick_at 1 100), Reset]"
  have e1: "map_option account_state (run (engine_new True (Some example_config)) ?ops1) =
      Some (example_config, 2, 100000 - 150, 1500000, 100, 0, 110)"
    by (simp add: run_def engine_new_def zeroed_handle_def engine_place_order_def
        MAX_OPEN_ORDERS_def engine_step_tick_def fill_loop.simps compact_loop.simps
        fill_body_def example_config_def market_order_def tick_at_def should_fill_order_def
        apply_spread_def execute_fill_def calculate_fee_def Let_def account_state_def)
  have e2: "map_option account_state (run (engine_new True (Some example_config)) ?ops2) =
      Some (example_config, 0, 100000, 0, 0, 0, 0)"
    by (simp add: run_def engine_new_def zeroed_handle_def engine_place_order_def
        MAX_OPEN_ORDERS_def engine_step_tick_def fill_loop.simps compact_loop.simps
        fill_body_def example_config_def market_order_def tick_at_def should_fill_order_def
        apply_spread_def execute_fill_def calculate_fee_def Let_def account_state_def
        engine_reset_def)
  from snapshot_conservation [of example_config ?ops1] obtain h1 where
    h1: "run (engine_new True (Some example_config)) ?ops1 = Some h1"
    and p1: "let s = engine_get_snapshot (Some h1)
      in equity s = snapshot_t.cash s + unrealized_pnl s \<and>
         (snapshot_t.position s = 0 \<longrightarrow> unrealized_pnl s = 0) \<and>
         (snapshot_t.position s \<noteq> 0 \<longrightarrow>
            unrealized_pnl s =
              (real_of_int (snapshot_t.position s) / 1000000) *
              (real_of_int (last_tick_price h1) - snapshot_t.avg_entry_price s) *
              tick_size example_config) \<and>
         snapshot_t.position s = position h1 \<and>
         snapshot_t.avg_entry_price s = avg_entry_price h1 \<and>
         snapshot_t.cash s = cash h1"
    by blast
  from e1 h1 have a1: "position h1 = 1500000" "avg_entry_price h1 = 100" "cash h1 = 100000 - 150"
    "last_tick_price h1 = 110"
    by (simp_all add: account_state_def)
  from p1 a1 have u1: "unrealized_pnl (engine_get_snapshot (Some h1)) = 15"
    and q1: "equity (engine_get_snapshot (Some h1)) = 100000 - 150 + 15"
    by (auto simp: Let_def example_config_def)
  from snapshot_conservation [of example_config ?ops2] obtain h2 where
    h2: "run (engine_new True (Some example_config)) ?ops2 = Some h2"
    and p2: "let s = engine_get_snapshot (Some h2)
      in equity s = snapshot_t.cash s + unrealized_pnl s \<and>
         (snapshot_t.position s = 0 \<longrightarrow> unrealized_pnl s = 0) \<and>
         (snapshot_t.position s \<noteq> 0 \<longrightarrow>
            unrealized_pnl s =
              (real_of_int (snapshot_t.position s) / 1000000) *
              (real_of_int (last_tick_price h2) - snapshot_t.avg_entry_price s) *
              tick_size example_config) \<and>
         snapshot_t.position s = position h2 \<and>
         snapshot_t.avg_entry_price s = avg_entry_price h2 \<and>
         snapshot_t.cash s = cash h2"
    by blast
  from e2 h2 have a2: "position h2 = 0"
    by (simp add: account_state_def)
  from p2 a2 have u2: "snapshot_t.position (engine_get_snapshot (Some h2)) = 0"
    "unrealized_pnl (engine_get_snapshot (Some h2)) = 0"
    by (auto simp: Let_def)
  from u1 q1 u2 show ?thesis unfolding h1 h2 by simp
qed

section \<open>The tick step\<close>

lemma execute_fill_clock:
  "current_ts_ms (execute_fill h ord p) = current_ts_ms h"
  "last_tick_price (execute_fill h ord p) = last_tick_price h"
  by (simp_all add: execute_fill_def Let_def)

lemma spec_scan_clock:
  "current_ts_ms (spec_scan tick ts h) = current_ts_ms h \<and>
   last_tick_price (spec_scan tick ts h) = last_tick_price h"
  by (induction ts arbitrary: h) (simp_all add: execute_fill_clock)

lemma fill_loop_marks:
  assumes "handle_ok h"
  shows "stored_orders (fill_loop tick 0 h) = map (spec_mark tick) (stored_orders h)"
proof -
  from assms have n: "order_count h \<le> length (orders h)"
    by (simp add: handle_ok_def)
  then have "fill_loop tick 0 h =
      (spec_scan tick (take (order_count h) (orders h)) h)
        \<lparr>orders := map (spec_mark tick) (take (order_count h) (orders h)) @
                   drop (order_count h) (orders h)\<rparr>"
    using fill_loop_spec [of 0 h tick] by simp
  with n show ?thesis
    by (simp add: stored_orders_def spec_scan_order_count)
qed

text \<open>
  Claim C5. On a handle of the kernel, \<open>engine_step_tick\<close> succeeds and leaves a handle in
  which: the timestamp and the last tick price are the tick's; the account is the one
  obtained by going through the stored orders in insertion order and executing, on the
  account as the earlier fills left it, each active order that fills (a market order
  always, from the tick's price; a buy limit when the tick's price is at most its limit, a
  sell limit when it is at least its limit, from the limit tick), at the spread-adjusted
  tick; after the fill loop exactly the orders that filled have been marked inactive; and
  the stored orders after compaction are the active orders that did not fill, in their
  insertion order.
\<close>

theorem engine_step_tick_scans_in_insertion_order:
  assumes "handle_ok h"
  shows "\<exists>h'. engine_step_tick (Some h) (Some tick) = (0, Some h') \<and>
           current_ts_ms h' = tick_event_t.ts_ms tick \<and>
           last_tick_price h' = tick_event_t.price_tick tick \<and>
           account_state h' =
             account_state (spec_scan tick (stored_orders h)
               (h\<lparr>current_ts_ms := tick_event_t.ts_ms tick,
                  last_tick_price := tick_event_t.price_tick tick\<rparr>)) \<and>
           stored_orders (fill_loop tick 0
               (h\<lparr>current_ts_ms := tick_event_t.ts_ms tick,
                  last_tick_price := tick_event_t.price_tick tick\<rparr>)) =
             map (spec_mark tick) (stored_orders h) \<and>
           stored_orders h' = spec_survivors tick (stored_orders h) \<and>
           handle_ok h'"
proof -
  let ?h1 = "h\<lparr>current_ts_ms := tick_event_t.ts_ms tick,
                last_tick_price := tick_event_t.price_tick tick\<rparr>"
  from engine_step_tick_refines [OF assms, of tick] obtain h' where
    s: "engine_step_tick (Some h) (Some tick) = (0, Some h')"
    and a: "account_state h' = account_state (spec_scan tick (stored_orders h) ?h1)"
    and st: "stored_orders h' = spec_survivors tick (stored_orders h)"
    and ok': "handle_ok h'"
    by blast
  from a have "current_ts_ms h' = current_ts_ms (spec_scan tick (stored_orders h) ?h1)"
    and "last_tick_price h' = last_tick_price (spec_scan tick (stored_orders h) ?h1)"
    by (simp_all add: account_state_def)
  then have clock: "current_ts_ms h' = tick_event_t.ts_ms tick"
    "last_tick_price h' = tick_event_t.price_tick tick"
    by (simp_all add: spec_scan_clock)
  have "handle_ok ?h1"
    using assms by (simp add: handle_ok_def)
  then have "stored_orders (fill_loop tick 0 ?h1) = map (spec_mark tick) (stored_orders ?h1)"
    by (rule fill_loop_marks)
  then have m: "stored_orders (fill_loop tick 0 ?h1) = map (spec_mark tick) (stored_orders h)"
    by (simp add: stored_orders_def)
  from s clock a m st ok' show ?thesis by blast
qed

lemma example_book_ok: "handle_ok example_book"
  by (simp add: example_book_def handle_ok_def zeroed_handle_def MAX_OPEN_ORDERS_def)

lemma example_book_stored:
  "stored_orders example_book =
     [\<lparr>order = limit_order 1 SIDE_BUY 1000000 100, active = True\<rparr>,
      \<lparr>order = limit_order 2 SIDE_BUY 1000000 105, active = True\<rparr>,
      \<lparr>order = market_order 3 SIDE_SELL 3000000, active = True\<rparr>,
      \<lparr>order = limit_order 4 SIDE_SELL 1000000 120, active = False\<rparr>]"
  by (simp add: example_book_def stored_orders_def)

text \<open>
  A tick at 101 on the example book: the buy limit at 100 does not fill and survives; the
  buy limit at 105 fills at 105 and opens a long 1.0; the market sell of 3.0 then fills at
  101 against that long, realizing (101 - 105) * 1.0 = -4 and flipping to a short 2.0
  entered at 101; the cancelled order is skipped and dropped.
\<close>

theorem engine_step_tick_scans_in_insertion_order_witness:
  "handle_ok example_book \<and>
   fst (engine_step_tick (Some example_book) (Some (tick_at 5 101))) = 0 \<and>
   map_option account_state (snd (engine_step_tick (Some example_book) (Some (tick_at 5 101)))) =
     Some (example_config, 5, 100000 - 105 + 303, - 2000000, 101, - 4, 101) \<and>
   map_option stored_orders (snd (engine_step_tick (Some example_book) (Some (tick_at 5 101)))) =
     Some [\<lparr>order = limit_order 1 SIDE_BUY 1000000 100, active = True\<rparr>]"
proof -
  let ?t = "tick_at 5 101"
  from engine_step_tick_scans_in_insertion_order [OF example_book_ok, of ?t] obtain h' where
    s: "engine_step_tick (Some example_book) (Some ?t) = (0, Some h')"
    and a: "account_state h' =
             account_state (spec_scan ?t (stored_orders example_book)
               (example_book\<lparr>current_ts_ms := tick_event_t.ts_ms ?t,
                  last_tick_price := tick_event_t.price_tick ?t\<rparr>))"
    and st: "stored_orders h' = spec_survivors ?t (stored_orders example_book)"
    by blast
  have "account_state (spec_scan ?t (stored_orders example_book)
               (example_book\<lparr>current_ts_ms := tick_event_t.ts_ms ?t,
                  last_tick_price := tick_event_t.price_tick ?t\<rparr>)) =
        (example_config, 5, 100000 - 105 + 303, - 2000000, 101, - 4, 101)"
    unfolding example_book_stored
    by (simp add: spec_fills_def spec_fill_base_def limit_order_def
          market_order_def tick_at_def apply_spread_def execute_fill_def calculate_fee_def
          Let_def example_book_def zeroed_handle_def example_config_def account_state_def)
  with a have a': "account_state h' =
      (example_config, 5, 100000 - 105 + 303, - 2000000, 101, - 4, 101)"
    by simp
  have "spec_survivors ?t (stored_orders example_book) =
        [\<lparr>order = limit_order 1 SIDE_BUY 1000000 100, active = True\<rparr>]"
    by (simp add: example_book_stored spec_survivors_def spec_fills_def limit_order_def
          market_order_def tick_at_def)
  with st have st': "stored_orders h' =
      [\<lparr>order = limit_order 1 SIDE_BUY 1000000 100, active = True\<rparr>]"
    by simp
  from s a' st' example_book_ok show ?thesis by simp
qed

section \<open>Batch ingestion\<close>

lemma batch_loop_run:
  "batch_loop timestamps price_ticks qtys sides i h =
     run h (map StepTick
       (map (batch_tick timestamps price_ticks qtys sides) [i..<length timestamps]))"
proof (induction timestamps price_ticks qtys sides i h rule: batch_loop.induct)
  case (1 timestamps price_ticks qtys sides i h)
  show ?case
  proof (cases "i < length timestamps")
    case False
    then have "batch_loop timestamps price_ticks qtys sides i h = h"
      by (subst batch_loop.simps) simp
    with False show ?thesis by (simp add: run_def)
  next
    case True
    let ?t = "batch_tick timestamps price_ticks qtys sides i"
    from True have "batch_loop timestamps price_ticks qtys sides i h =
        batch_loop timestamps price_ticks qtys sides (Suc i) (snd (engine_step_tick h (Some ?t)))"
      by (subst batch_loop.simps) simp
    also have "\<dots> = run (snd (engine_step_tick h (Some ?t)))
        (map StepTick (map (batch_tick timestamps price_ticks qtys sides)
           [Suc i..<length timestamps]))"
      by (rule "1.IH" [OF True])
    also have "\<dots> = run h (map StepTick (map (batch_tick timestamps price_ticks qtys sides)
           [i..<length timestamps]))"
      using True by (simp add: run_def upt_conv_Cons)
    finally show ?thesis .
  qed
qed

text \<open>
  Claim C3, for \<open>step_batch\<close> as the specification describes it. When the four sequences
  have the same length N and every side code is 0 or 1, \<open>step_batch\<close> succeeds and leaves
  exactly the handle (so the account state and the snapshot) that N successive tick steps
  leave, one per index in index order, on a handle of the kernel; when the lengths differ
  it fails with \<open>length_mismatch\<close>.
\<close>

theorem step_batch_equivalence:
  "(length price_ticks = length timestamps \<and> length qtys = length timestamps \<and>
    length sides = length timestamps \<and> list_all (\<lambda>c. side_of_code c \<noteq> None) sides \<and>
    handle_ok h \<longrightarrow>
      (\<exists>h'. step_batch h timestamps price_ticks qtys sides = Inr (Some h') \<and>
            run (Some h) (map StepTick (batch_ticks timestamps price_ticks qtys sides)) = Some h' \<and>
            length (batch_ticks timestamps price_ticks qtys sides) = length timestamps \<and>
            engine_get_snapshot (Some h') =
              engine_get_snapshot
                (run (Some h) (map StepTick (batch_ticks timestamps price_ticks qtys sides))))) \<and>
   (\<not> (length price_ticks = length timestamps \<and> length qtys = length timestamps \<and>
        length sides = length timestamps) \<longrightarrow>
      step_batch h timestamps price_ticks qtys sides = Inl length_mismatch)"
proof (intro conjI impI)
  assume v: "length price_ticks = length timestamps \<and> length qtys = length timestamps \<and>
    length sides = length timestamps \<and> list_all (\<lambda>c. side_of_code c \<noteq> None) sides \<and>
    handle_ok h"
  let ?ops = "map StepTick (batch_ticks timestamps price_ticks qtys sides)"
  from v have "step_batch h timestamps price_ticks qtys sides =
      Inr (batch_loop timestamps price_ticks qtys sides 0 (Some h))"
    by (simp add: step_batch_def)
  then have b: "step_batch h timestamps price_ticks qtys sides = Inr (run (Some h) ?ops)"
    by (simp add: batch_loop_run batch_ticks_def)
  from v run_some [of h ?ops] obtain h' where r: "run (Some h) ?ops = Some h'"
    by blast
  have "length (batch_ticks timestamps price_ticks qtys sides) = length timestamps"
    by (simp add: batch_ticks_def)
  with b r show "\<exists>h'. step_batch h timestamps price_ticks qtys sides = Inr (Some h') \<and>
            run (Some h) ?ops = Some h' \<and>
            length (batch_ticks timestamps price_ticks qtys sides) = length timestamps \<and>
            engine_get_snapshot (Some h') = engine_get_snapshot (run (Some h) ?ops)"
    by simp
next
  assume "\<not> (length price_ticks = length timestamps \<and> length qtys = length timestamps \<and>
        length sides = length timestamps)"
  then show "step_batch h timestamps price_ticks qtys sides = Inl length_mismatch"
    by (simp add: step_batch_def)
qed

text \<open>
  Two ticks on the example book, at 101 and then at 100: the buy limit at 100 fills on the
  second tick against the short the first tick left. With a price sequence one element
  short the batch is refused.
\<close>

theorem step_batch_equivalence_witness:
  "handle_ok example_book \<and>
   list_all (\<lambda>c. side_of_code c \<noteq> None) [0, 1] \<and>
   map_sum id (map_option account_state)
     (step_batch example_book [5, 6] [101, 100] [1, 5 / 2] [0, 1]) =
     Inr (Some (example_config, 6, 100098, - 1000000, 101, - 3, 100)) \<and>
   map_option account_state
     (run (Some example_book)
        [StepTick \<lparr>tick_event_t.ts_ms = 5, tick_event_t.price_tick = 101,
                   tick_event_t.qty = 1000000, tick_event_t.side = SIDE_BUY\<rparr>,
         StepTick \<lparr>tick_event_t.ts_ms = 6, tick_event_t.price_tick = 100,
                   tick_event_t.qty = 2500000, tick_event_t.side = SIDE_SELL\<rparr>]) =
     Some (example_config, 6, 100098, - 1000000, 101, - 3, 100) \<and>
   step_batch example_book [5, 6] [101] [1, 5 / 2] [0, 1] = Inl length_mismatch"
proof -
  have v: "list_all (\<lambda>c. side_of_code c \<noteq> None) [0, 1]"
    by (simp add: side_of_code_def)
  have t: "batch_ticks [5, 6] [101, 100] [1, 5 / 2] [0, 1] =
      [\<lparr>tick_event_t.ts_ms = 5, tick_event_t.price_tick = 101,
        tick_event_t.qty = 1000000, tick_event_t.side = SIDE_BUY\<rparr>,
       \<lparr>tick_event_t.ts_ms = 6, tick_event_t.price_tick = 100,
        tick_event_t.qty = 2500000, tick_event_t.side = SIDE_SELL\<rparr>]"
    by (simp add: batch_ticks_def batch_tick_def scale_qty_def side_of_code_def upt_conv_Cons
          double_mul_qty Let_def)
  have e: "map_option account_state
     (run (Some example_book)
        [StepTick \<lparr>tick_event_t.ts_ms = 5, tick_event_t.price_tick = 101,
                   tick_event_t.qty = 1000000, tick_event_t.side = SIDE_BUY\<rparr>,
         StepTick \<lparr>tick_event_t.ts_ms = 6, tick_event_t.price_tick = 100,
                   tick_event_t.qty = 2500000, tick_event_t.side = SIDE_SELL\<rparr>]) =
     Some (example_config, 6, 100098, - 1000000, 101, - 3, 100)"
    by (simp add: run_def example_book_def zeroed_handle_def MAX_OPEN_ORDERS_def
        engine_step_tick_def fill_loop.simps compact_loop.simps fill_body_def example_config_def
        market_order_def limit_order_def should_fill_order_def apply_spread_def execute_fill_def
        calculate_fee_def Let_def account_state_def)
  from step_batch_equivalence [of "[101, 100]" "[5, 6]" "[1, 5 / 2]" "[0, 1]" example_book]
    v example_book_ok
  obtain h' where
    sb: "step_batch example_book [5, 6] [101, 100] [1, 5 / 2] [0, 1] = Inr (Some h')"
    and r: "run (Some example_book)
              (map StepTick (batch_ticks [5, 6] [101, 100] [1, 5 / 2] [0, 1])) = Some h'"
    by auto
  from r have "run (Some example_book)
        [StepTick \<lparr>tick_event_t.ts_ms = 5, tick_event_t.price_tick = 101,
                   tick_event_t.qty = 1000000, tick_event_t.side = SIDE_BUY\<rparr>,
         StepTick \<lparr>tick_event_t.ts_ms = 6, tick_event_t.price_tick = 100,
                   tick_event_t.qty = 2500000, tick_event_t.side = SIDE_SELL\<rparr>] = Some h'"
    unfolding t by simp
  with e have "account_state h' = (example_config, 6, 100098, - 1000000, 101, - 3, 100)"
    by simp
  with sb have a: "map_sum id (map_option account_state)
     (step_batch example_book [5, 6] [101, 100] [1, 5 / 2] [0, 1]) =
     Inr (Some (example_config, 6, 100098, - 1000000, 101, - 3, 100))"
    by simp
  from step_batch_equivalence [of "[101]" "[5, 6]" "[1, 5 / 2]" "[0, 1]" example_book]
  have "step_batch example_book [5, 6] [101] [1, 5 / 2] [0, 1] = Inl length_mismatch"
    by simp
  with a e v example_book_ok show ?thesis by simp
qed

section \<open>Capacity and cancelled orders\<close>

lemma run_append: "run h (xs @ ys) = run (run h xs) ys"
  by (simp add: run_def)

lemma run_place_n:
  "handle_ok h \<Longrightarrow> order_count h + n \<le> MAX_OPEN_ORDERS \<Longrightarrow>
   \<exists>h'. run (Some h) (replicate n (PlaceOrder ord)) = Some h' \<and> handle_ok h' \<and>
        order_count h' = order_count h + n \<and> account_state h' = account_state h \<and>
        stored_orders h' = stored_orders h @ replicate n \<lparr>order = ord, active = True\<rparr>"
proof (induction n arbitrary: h)
  case 0
  then show ?case by (simp add: run_def)
next
  case (Suc n)
  from Suc.prems have room: "order_count h < MAX_OPEN_ORDERS" by simp
  from engine_place_order_append [OF Suc.prems(1) room, of ord] obtain h1 where
    p: "engine_place_order (Some h) (Some ord) = (0, Some h1)"
    and s1: "stored_orders h1 = stored_orders h @ [\<lparr>order = ord, active = True\<rparr>]"
    and c1: "order_count h1 = Suc (order_count h)"
    and a1: "account_state h1 = account_state h"
    and ok1: "handle_ok h1"
    by blast
  from Suc.prems c1 have "order_count h1 + n \<le> MAX_OPEN_ORDERS" by simp
  from Suc.IH [OF ok1 this] obtain h' where
    r: "run (Some h1) (replicate n (PlaceOrder ord)) = Some h'"
    and ok': "handle_ok h'"
    and c': "order_count h' = order_count h1 + n"
    and a': "account_state h' = account_state h1"
    and s': "stored_orders h' = stored_orders h1 @ replicate n \<lparr>order = ord, active = True\<rparr>"
    by blast
  have "run (Some h) (replicate (Suc n) (PlaceOrder ord)) = Some h'"
    using p r by (simp add: run_def)
  moreover have "order_count h' = order_count h + Suc n"
    using c' c1 by simp
  moreover have "stored_orders h' =
      stored_orders h @ replicate (Suc n) \<lparr>order = ord, active = True\<rparr>"
    using s' s1 by simp
  ultimately show ?case using ok' a' a1 by auto
qed

lemma engine_cancel_order_first:
  assumes "0 < order_count h" "active (orders h ! 0)" "order_id (order (orders h ! 0)) = oid"
  shows "engine_cancel_order (Some h) oid =
           (0, Some (h\<lparr>orders := (orders h)[0 := (orders h ! 0)\<lparr>active := False\<rparr>]\<rparr>))"
proof -
  from assms have "cancel_loop 0 oid h =
      (0, h\<lparr>orders := (orders h)[0 := (orders h ! 0)\<lparr>active := False\<rparr>]\<rparr>)"
    by (subst cancel_loop.simps) simp
  then show ?thesis by (simp add: engine_cancel_order_def)
qed

lemma live_le_order_count:
  "handle_ok h \<Longrightarrow> length (live_orders h) \<le> order_count h"
proof -
  assume "handle_ok h"
  then have "length (stored_orders h) = order_count h"
    by (simp add: handle_ok_def stored_orders_def)
  moreover have "length (live_orders h) \<le> length (stored_orders h)"
    by (simp add: live_orders_def)
  ultimately show ?thesis by simp
qed

lemma spec_survivors_le_live:
  "length (spec_survivors tick ts) \<le> length (filter active ts)"
  by (induction ts) (simp_all add: spec_survivors_def)

lemma cancel_keeps_slot:
  assumes ok: "handle_ok h" and c: "engine_cancel_order (Some h) oid = (0, Some h')"
  shows "order_count h' = order_count h \<and>
         length (stored_orders h') = length (stored_orders h) \<and>
         Suc (length (live_orders h')) = length (live_orders h) \<and>
         (order_count h = MAX_OPEN_ORDERS \<longrightarrow>
            length (live_orders h') < MAX_OPEN_ORDERS \<and>
            engine_place_order (Some h') (Some ord) = (- 2, Some h')) \<and>
         (\<exists>h''. engine_step_tick (Some h') (Some tick) = (0, Some h'') \<and>
                order_count h'' \<le> length (live_orders h') \<and>
                fst (engine_place_order (Some h'') (Some ord)) = 0)"
proof -
  from engine_cancel_order_ok [OF ok c] have
    n: "order_count h' = order_count h"
    and ok': "handle_ok h'"
    and ls: "length (stored_orders h') = length (stored_orders h)"
    and live: "Suc (length (live_orders h')) = length (live_orders h)"
    by simp_all
  from live live_le_order_count [OF ok] have lt: "length (live_orders h') < order_count h"
    by simp
  from ok have cap: "order_count h \<le> MAX_OPEN_ORDERS"
    by (simp add: handle_ok_def)
  have full: "order_count h = MAX_OPEN_ORDERS \<longrightarrow>
            length (live_orders h') < MAX_OPEN_ORDERS \<and>
            engine_place_order (Some h') (Some ord) = (- 2, Some h')"
    using lt n by (auto intro: engine_place_order_full)
  from engine_step_tick_refines [OF ok', of tick] obtain h'' where
    s: "engine_step_tick (Some h') (Some tick) = (0, Some h'')"
    and st: "stored_orders h'' = spec_survivors tick (stored_orders h')"
    and ok'': "handle_ok h''"
    by blast
  from ok'' have "order_count h'' = length (stored_orders h'')"
    by (simp add: handle_ok_def stored_orders_def)
  also have "\<dots> \<le> length (filter active (stored_orders h'))"
    unfolding st by (rule spec_survivors_le_live)
  also have "\<dots> = length (live_orders h')"
    by (simp add: live_orders_def)
  finally have le: "order_count h'' \<le> length (live_orders h')" .
  with lt cap have "order_count h'' < MAX_OPEN_ORDERS" by simp
  from engine_place_order_append [OF ok'' this, of ord]
  have "fst (engine_place_order (Some h'') (Some ord)) = 0" by auto
  with s le have "\<exists>h''. engine_step_tick (Some h') (Some tick) = (0, Some h'') \<and>
                order_count h'' \<le> length (live_orders h') \<and>
                fst (engine_place_order (Some h'') (Some ord)) = 0"
    by blast
  with n ls live full show ?thesis by blast
qed

lemma full_then_cancel:
  "\<exists>h1. run (engine_new True (Some cfg))
           (replicate MAX_OPEN_ORDERS (PlaceOrder ord) @ [CancelOrder (order_id ord)]) = Some h1 \<and>
        length (live_orders h1) < MAX_OPEN_ORDERS \<and>
        fst (engine_place_order (Some h1) (Some ord)) = - 2"
proof -
  let ?t = "\<lparr>order = ord, active = True\<rparr>"
  have z: "order_count (zeroed_handle cfg) + MAX_OPEN_ORDERS \<le> MAX_OPEN_ORDERS"
    "stored_orders (zeroed_handle cfg) = []"
    by (simp_all add: zeroed_handle_def stored_orders_def)
  from run_place_n [OF handle_ok_zeroed z(1), of ord] z(2) obtain h0 where
    r0: "run (Some (zeroed_handle cfg)) (replicate MAX_OPEN_ORDERS (PlaceOrder ord)) = Some h0"
    and ok0: "handle_ok h0"
    and c0: "order_count h0 = MAX_OPEN_ORDERS"
    and s0: "stored_orders h0 = replicate MAX_OPEN_ORDERS ?t"
    by (auto simp: zeroed_handle_def)
  have pos: "0 < MAX_OPEN_ORDERS" by (simp add: MAX_OPEN_ORDERS_def)
  have "stored_orders h0 ! 0 = orders h0 ! 0"
    using pos c0 by (simp add: stored_orders_def)
  with s0 pos have first: "orders h0 ! 0 = ?t" by simp
  let ?h1 = "h0\<lparr>orders := (orders h0)[0 := (orders h0 ! 0)\<lparr>active := False\<rparr>]\<rparr>"
  have c: "engine_cancel_order (Some h0) (order_id ord) = (0, Some ?h1)"
    using pos c0 first by (intro engine_cancel_order_first) simp_all
  from cancel_keeps_slot [OF ok0 c, of ord] c0
  have "length (live_orders ?h1) < MAX_OPEN_ORDERS"
    and "engine_place_order (Some ?h1) (Some ord) = (- 2, Some ?h1)"
    by blast+
  moreover have "run (engine_new True (Some cfg))
      (replicate MAX_OPEN_ORDERS (PlaceOrder ord) @ [CancelOrder (order_id ord)]) = Some ?h1"
    using r0 c by (simp add: run_append engine_new_def) (simp add: run_def)
  ultimately show ?thesis by simp
qed

text \<open>
  Claim C10. A successful \<open>engine_cancel_order\<close> on a handle of the kernel leaves the order
  count and the number of stored orders as they were and only makes one live order
  inactive. So when the array was full, fewer than \<open>MAX_OPEN_ORDERS\<close> orders are live
  afterwards and \<open>engine_place_order\<close> still fails with code -2 (order book full), the
  handle unchanged. The next \<open>engine_step_tick\<close> compacts: its order count is at most the
  number of orders that were live, and a placement succeeds again. Such a sequence exists
  from every fresh handle: \<open>MAX_OPEN_ORDERS\<close> placements of an order, then its
  cancellation.
\<close>

theorem cancelled_slot_counts_until_step:
  "(handle_ok h \<and> engine_cancel_order (Some h) oid = (0, Some h') \<longrightarrow>
      order_count h' = order_count h \<and>
      length (stored_orders h') = length (stored_orders h) \<and>
      Suc (length (live_orders h')) = length (live_orders h) \<and>
      (order_count h = MAX_OPEN_ORDERS \<longrightarrow>
         length (live_orders h') < MAX_OPEN_ORDERS \<and>
         engine_place_order (Some h') (Some ord) = (- 2, Some h')) \<and>
      (\<exists>h''. engine_step_tick (Some h') (Some tick) = (0, Some h'') \<and>
             order_count h'' \<le> length (live_orders h') \<and>
             fst (engine_place_order (Some h'') (Some ord)) = 0)) \<and>
   (\<exists>h1. run (engine_new True (Some cfg))
           (replicate MAX_OPEN_ORDERS (PlaceOrder ord) @ [CancelOrder (order_id ord)]) = Some h1 \<and>
         length (live_orders h1) < MAX_OPEN_ORDERS \<and>
         fst (engine_place_order (Some h1) (Some ord)) = - 2)"
  using cancel_keeps_slot [of h oid h' ord tick] full_then_cancel [of cfg ord]
  by blast

lemma example_full_book_ok: "handle_ok example_full_book"
  by (simp add: example_full_book_def handle_ok_def)

text \<open>
  On the full example book, cancelling order 9 succeeds at slot 0; the count stays at
  \<open>MAX_OPEN_ORDERS\<close>, a further placement is refused, and after a tick at 100 (no buy limit
  at 50 fills) a placement is accepted.
\<close>

theorem cancelled_slot_counts_until_step_witness:
  "handle_ok example_full_book \<and>
   order_count example_full_book = MAX_OPEN_ORDERS \<and>
   engine_cancel_order (Some example_full_book) 9 =
     (0, Some (example_full_book
        \<lparr>orders := (orders example_full_book)
           [0 := \<lparr>order = limit_order 9 SIDE_BUY 1000000 50, active = False\<rparr>]\<rparr>)) \<and>
   order_count (example_full_book
        \<lparr>orders := (orders example_full_book)
           [0 := \<lparr>order = limit_order 9 SIDE_BUY 1000000 50, active = False\<rparr>]\<rparr>) =
     MAX_OPEN_ORDERS \<and>
   length (live_orders (example_full_book
        \<lparr>orders := (orders example_full_book)
           [0 := \<lparr>order = limit_order 9 SIDE_BUY 1000000 50, active = False\<rparr>]\<rparr>)) <
     MAX_OPEN_ORDERS \<and>
   fst (engine_place_order (Some (example_full_book
        \<lparr>orders := (orders example_full_book)
           [0 := \<lparr>order = limit_order 9 SIDE_BUY 1000000 50, active = False\<rparr>]\<rparr>))
      (Some (limit_order 10 SIDE_BUY 1000000 50))) = - 2 \<and>
   fst (engine_place_order
      (snd (engine_step_tick (Some (example_full_book
        \<lparr>orders := (orders example_full_book)
           [0 := \<lparr>order = limit_order 9 SIDE_BUY 1000000 50, active = False\<rparr>]\<rparr>))
         (Some (tick_at 1 100))))
      (Some (limit_order 10 SIDE_BUY 1000000 50))) = 0"
proof -
  let ?h' = "example_full_book
        \<lparr>orders := (orders example_full_book)
           [0 := \<lparr>order = limit_order 9 SIDE_BUY 1000000 50, active = False\<rparr>]\<rparr>"
  have n: "order_count example_full_book = MAX_OPEN_ORDERS"
    by (simp add: example_full_book_def)
  have pos: "0 < MAX_OPEN_ORDERS" by (simp add: MAX_OPEN_ORDERS_def)
  have first: "orders example_full_book ! 0 =
      \<lparr>order = limit_order 9 SIDE_BUY 1000000 50, active = True\<rparr>"
    using pos by (simp add: example_full_book_def)
  have "engine_cancel_order (Some example_full_book) 9 =
      (0, Some (example_full_book\<lparr>orders := (orders example_full_book)
          [0 := (orders example_full_book ! 0)\<lparr>active := False\<rparr>]\<rparr>))"
    using pos n first by (intro engine_cancel_order_first) (simp_all add: limit_order_def)
  then have c: "engine_cancel_order (Some example_full_book) 9 = (0, Some ?h')"
    by (simp add: first)
  note t = cancelled_slot_counts_until_step
    [of example_full_book 9 ?h' "limit_order 10 SIDE_BUY 1000000 50" "tick_at 1 100",
     THEN conjunct1, rule_format, OF conjI [OF example_full_book_ok c]]
  from t have "order_count ?h' = order_count example_full_book" by blast
  with n have n': "order_count ?h' = MAX_OPEN_ORDERS" by simp
  from t n have l: "length (live_orders ?h') < MAX_OPEN_ORDERS"
    and p: "engine_place_order (Some ?h') (Some (limit_order 10 SIDE_BUY 1000000 50)) =
              (- 2, Some ?h')"
    by blast+
  from t obtain h'' where
    "engine_step_tick (Some ?h') (Some (tick_at 1 100)) = (0, Some h'')"
    "fst (engine_place_order (Some h'') (Some (limit_order 10 SIDE_BUY 1000000 50))) = 0"
    by blast
  then have s: "fst (engine_place_order
      (snd (engine_step_tick (Some ?h') (Some (tick_at 1 100))))
      (Some (limit_order 10 SIDE_BUY 1000000 50))) = 0"
    by simp
  from example_full_book_ok n c n' l p s show ?thesis by simp
qed

section \<open>Position accounting\<close>

text \<open>
  What \<open>execute_fill\<close> does to the position, the average entry price and the realized P&L,
  case by case, for an order of quantity \<open>q = qty ord\<close> filled at tick \<open>p\<close> on a position
  \<open>old = position h\<close>.
\<close>

lemma execute_fill_position:
  "position (execute_fill h ord p) =
     position h + (if side ord = SIDE_BUY then qty ord else - qty ord)"
  by (simp add: execute_fill_def Let_def)

lemma execute_fill_open:
  "position h = 0 \<Longrightarrow>
   avg_entry_price (execute_fill h ord p) = real_of_int p \<and>
   realized_pnl (execute_fill h ord p) = realized_pnl h"
  by (simp add: execute_fill_def Let_def)

lemma execute_fill_add_long:
  "0 < position h \<Longrightarrow> side ord = SIDE_BUY \<Longrightarrow>
   avg_entry_price (execute_fill h ord p) =
     (real_of_int (position h) * avg_entry_price h + real_of_int (qty ord) * real_of_int p) /
     real_of_int (position h + qty ord) \<and>
   realized_pnl (execute_fill h ord p) = realized_pnl h"
  by (simp add: execute_fill_def Let_def)

text \<open>
  Adding to a short: the code weights the fill by the unsigned quantity \<open>q\<close>, not by the
  signed delta \<open>-q\<close>, while the old position and the new one are negative.
\<close>

lemma execute_fill_add_short:
  "position h < 0 \<Longrightarrow> side ord = SIDE_SELL \<Longrightarrow>
   avg_entry_price (execute_fill h ord p) =
     (real_of_int (position h) * avg_entry_price h + real_of_int (qty ord) * real_of_int p) /
     real_of_int (position h - qty ord) \<and>
   realized_pnl (execute_fill h ord p) = realized_pnl h"
  by (simp add: execute_fill_def Let_def)

lemma execute_fill_reduce_long:
  "0 < position h \<Longrightarrow> side ord = SIDE_SELL \<Longrightarrow> 0 < qty ord \<Longrightarrow> qty ord \<le> position h \<Longrightarrow>
   realized_pnl (execute_fill h ord p) =
     realized_pnl h +
     (real_of_int (qty ord) / 1000000) * (real_of_int p - avg_entry_price h) * tick_size (config h) \<and>
   avg_entry_price (execute_fill h ord p) =
     (if position h - qty ord = 0 then 0 else avg_entry_price h)"
  by (simp add: execute_fill_def Let_def) (simp add: field_simps)

lemma execute_fill_reduce_short:
  "position h < 0 \<Longrightarrow> side ord = SIDE_BUY \<Longrightarrow> 0 < qty ord \<Longrightarrow> qty ord \<le> - position h \<Longrightarrow>
   realized_pnl (execute_fill h ord p) =
     realized_pnl h -
     (real_of_int (qty ord) / 1000000) * (real_of_int p - avg_entry_price h) * tick_size (config h) \<and>
   avg_entry_price (execute_fill h ord p) =
     (if position h + qty ord = 0 then 0 else avg_entry_price h)"
  by (simp add: execute_fill_def Let_def) (simp add: field_simps)

lemma execute_fill_flip_long:
  "0 < position h \<Longrightarrow> side ord = SIDE_SELL \<Longrightarrow> position h < qty ord \<Longrightarrow>
   realized_pnl (execute_fill h ord p) =
     realized_pnl h +
     (real_of_int (position h) / 1000000) * (real_of_int p - avg_entry_price h) *
     tick_size (config h) \<and>
   avg_entry_price (execute_fill h ord p) = real_of_int p"
  by (simp add: execute_fill_def Let_def) (simp add: field_simps)

lemma execute_fill_flip_short:
  "position h < 0 \<Longrightarrow> side ord = SIDE_BUY \<Longrightarrow> - position h < qty ord \<Longrightarrow>
   realized_pnl (execute_fill h ord p) =
     realized_pnl h -
     (real_of_int (- position h) / 1000000) * (real_of_int p - avg_entry_price h) *
     tick_size (config h) \<and>
   avg_entry_price (execute_fill h ord p) = real_of_int p"
  by (simp add: execute_fill_def Let_def) (simp add: field_simps)

text \<open>
  Claim C1 at an input where the code departs from it. A market sell of 1.0 filled at tick
  100 opens a short of 1.0 entered at 100; a second market sell of 1.0 filled at tick 100
  adds to it. The claim's weighted average
  \<open>(old * avg_entry_price + \<Delta> * p) / new\<close> with \<open>\<Delta> = -q\<close> is 100; the code leaves
  \<open>avg_entry_price = 0\<close>.
\<close>

theorem add_to_short_avg_entry_price_diverges:
  "map_option (\<lambda>h. (position h, avg_entry_price h))
     (run (engine_new True (Some example_config))
        [PlaceOrder (market_order 1 SIDE_SELL 1000000), StepTick (tick_at 1 100)]) =
     Some (- 1000000, 100) \<and>
   map_option (\<lambda>h. (position h, avg_entry_price h))
     (run (engine_new True (Some example_config))
        [PlaceOrder (market_order 1 SIDE_SELL 1000000), StepTick (tick_at 1 100),
         PlaceOrder (market_order 2 SIDE_SELL 1000000), StepTick (tick_at 2 100)]) =
     Some (- 2000000, 0) \<and>
   avg_entry_price
     (execute_fill ((zeroed_handle example_config)\<lparr>position := - 1000000, avg_entry_price := 100\<rparr>)
        (market_order 2 SIDE_SELL 1000000) 100) = 0 \<and>
   (real_of_int (- 1000000) * 100 + real_of_int (- 1000000) * real_of_int 100) /
     real_of_int (- 1000000 + - 1000000) = 100"
  by (simp add: run_def engine_new_def zeroed_handle_def engine_place_order_def
        MAX_OPEN_ORDERS_def engine_step_tick_def fill_loop.simps compact_loop.simps
        fill_body_def example_config_def market_order_def tick_at_def should_fill_order_def
        apply_spread_def execute_fill_def calculate_fee_def Let_def)

section \<open>The example handles are states of the kernel\<close>

text \<open>
  Both example books are what the public operations leave on a fresh handle.
\<close>

lemma replicate_max_split:
  "replicate MAX_OPEN_ORDERS z = z # z # z # z # replicate (MAX_OPEN_ORDERS - 4) z"
proof -
  have "MAX_OPEN_ORDERS = Suc (Suc (Suc (Suc (MAX_OPEN_ORDERS - 4))))"
    by (simp add: MAX_OPEN_ORDERS_def)
  then have "replicate MAX_OPEN_ORDERS z =
      replicate (Suc (Suc (Suc (Suc (MAX_OPEN_ORDERS - 4))))) z"
    by simp
  then show ?thesis by simp
qed

lemma example_book_reachable:
  "run (engine_new True (Some example_config))
     [PlaceOrder (limit_order 1 SIDE_BUY 1000000 100),
      PlaceOrder (limit_order 2 SIDE_BUY 1000000 105),
      PlaceOrder (market_order 3 SIDE_SELL 3000000),
      PlaceOrder (limit_order 4 SIDE_SELL 1000000 120),
      CancelOrder 4] = Some example_book"
  by (simp add: run_def engine_new_def zeroed_handle_def replicate_max_split example_book_def
        engine_place_order_def engine_cancel_order_def cancel_loop.simps limit_order_def
        market_order_def)
     (simp add: MAX_OPEN_ORDERS_def)

lemma example_full_book_reachable:
  "run (engine_new True (Some example_config))
     (replicate MAX_OPEN_ORDERS (PlaceOrder (limit_order 9 SIDE_BUY 1000000 50))) =
   Some example_full_book"
proof -
  let ?t = "\<lparr>order = limit_order 9 SIDE_BUY 1000000 50, active = True\<rparr>"
  let ?z = "zeroed_handle example_config"
  have z: "order_count ?z + MAX_OPEN_ORDERS \<le> MAX_OPEN_ORDERS" "stored_orders ?z = []"
    by (simp_all add: zeroed_handle_def stored_orders_def)
  from run_place_n [OF handle_ok_zeroed z(1), of "limit_order 9 SIDE_BUY 1000000 50"] z(2)
  obtain h where
    r: "run (Some ?z) (replicate MAX_OPEN_ORDERS (PlaceOrder (limit_order 9 SIDE_BUY 1000000 50))) =
          Some h"
    and ok: "handle_ok h"
    and c: "order_count h = MAX_OPEN_ORDERS"
    and a: "account_state h = account_state ?z"
    and s: "stored_orders h = replicate MAX_OPEN_ORDERS ?t"
    by (auto simp: zeroed_handle_def)
  from ok c s have o: "orders h = replicate MAX_OPEN_ORDERS ?t"
    by (simp add: handle_ok_def stored_orders_def)
  have "h = example_full_book"
    using a c o
    by (intro engine_handle_t.equality)
       (simp_all add: account_state_def example_full_book_def zeroed_handle_def)
  with r show ?thesis by (simp add: engine_new_def)
qed

end
